theory Spec2Isabelle
  imports Complex_Main
begin

section \<open>Tables\<close>

text \<open>
  The program works on pandas data frames read from a CSV file. A data frame is an
  index of row labels and an ordered sequence of named columns; every column carries
  a dtype and one cell per row. A cell is a text or a number; the number \<open>NaN\<close> is
  the missing-value marker (\<open>None\<close>, \<open>NaN\<close> and \<open>pd.NA\<close> are all recognised as
  missing by \<open>dropna\<close> and are not told apart here). A finite number is kept as the
  rational it denotes. In a column of dtype object the numbers are floats: a frame
  read from a CSV file holds integers and booleans only in columns of a numeric
  dtype.
\<close>

datatype number = Finite rat | PosInf | NegInf | NaN

datatype cell = Str string | Num number

abbreviation Missing :: cell where
  "Missing \<equiv> Num NaN"

datatype dtype = Object | Numeric

record column =
  col_name :: string
  col_dtype :: dtype
  col_cells :: "cell list"

record table =
  df_index :: "nat list"
  df_columns :: "column list"

definition col_names :: "table \<Rightarrow> string list" where
  "col_names df = map col_name (df_columns df)"

definition nrows :: "table \<Rightarrow> nat" where
  "nrows df = length (df_index df)"

definition ncols :: "table \<Rightarrow> nat" where
  "ncols df = length (df_columns df)"

fun is_text :: "cell \<Rightarrow> bool" where
  "is_text (Str s) = True"
| "is_text (Num v) = False"

fun isna :: "cell \<Rightarrow> bool" where
  "isna (Num NaN) = True"
| "isna c = False"

fun isinf :: "cell \<Rightarrow> bool" where
  "isinf (Num PosInf) = True"
| "isinf (Num NegInf) = True"
| "isinf c = False"

text \<open>
  A data frame is rectangular, and a column of a numeric dtype holds no text. The
  data model of the specification adds that column names are unique; the code itself
  checks for repeated names (\<open>validate_data\<close>), so uniqueness is a separate predicate.
\<close>

definition rectangular :: "table \<Rightarrow> bool" where
  "rectangular df = list_all (\<lambda>c. length (col_cells c) = nrows df) (df_columns df)"

definition well_typed :: "table \<Rightarrow> bool" where
  "well_typed df =
     list_all (\<lambda>c. col_dtype c = Numeric \<longrightarrow> \<not> list_ex is_text (col_cells c)) (df_columns df)"

definition unique_names :: "table \<Rightarrow> bool" where
  "unique_names df = distinct (col_names df)"

section \<open>Python exceptions and results\<close>

datatype exn =
    ValueError string
  | KeyError string
  | AttributeError string
  | TypeError string

text \<open>A text between single quotes, as Python's messages show names, and between double quotes.\<close>

definition quoted :: "string \<Rightarrow> string" where
  "quoted v = [CHR 0x27] @ v @ [CHR 0x27]"

definition dquoted :: "string \<Rightarrow> string" where
  "dquoted v = [CHR 0x22] @ v @ [CHR 0x22]"

text \<open>
  \<open>str(e)\<close>: the message of the exception; for a \<open>KeyError\<close> it is the \<open>repr\<close> of the
  key, the key between single quotes.
\<close>

fun str_exn :: "exn \<Rightarrow> string" where
  "str_exn (ValueError m) = m"
| "str_exn (KeyError m) = quoted m"
| "str_exn (AttributeError m) = m"
| "str_exn (TypeError m) = m"

text \<open>A natural number in decimal digits, as \<open>str\<close> prints it.\<close>

fun decimal :: "nat \<Rightarrow> string" where
  "decimal n =
     (if n < 10 then [''0123456789'' ! n]
      else decimal (n div 10) @ [''0123456789'' ! (n mod 10)])"

declare decimal.simps [simp del]

section \<open>Validation\<close>

text \<open>
  \<open>validate_data\<close> of \<open>visualization.py\<close>. The argument may be \<open>None\<close>; the result is
  the pair \<open>(is_valid, error_message)\<close>. \<open>df.empty\<close> holds when either axis has
  length zero; \<open>df.columns.duplicated().any()\<close> holds when a name repeats.
\<close>

definition df_empty :: "table \<Rightarrow> bool" where
  "df_empty df = (nrows df = 0 \<or> ncols df = 0)"

definition columns_duplicated_any :: "table \<Rightarrow> bool" where
  "columns_duplicated_any df = (\<not> distinct (col_names df))"

definition validate_data :: "table option \<Rightarrow> bool \<times> string" where
  "validate_data d =
     (case d of
        None \<Rightarrow> (False, ''No data provided'')
      | Some df \<Rightarrow>
          if df_empty df then (False, ''The uploaded file is empty'')
          else if ncols df < 2 then (False, ''File must contain at least two columns'')
          else if columns_duplicated_any df then (False, ''File contains duplicate column names'')
          else (True, ''''))"

text \<open>\<open>validate_data\<close> of \<open>utils.py\<close>: an older variant with no check for repeated names.\<close>

definition utils_validate_data :: "table \<Rightarrow> bool" where
  "utils_validate_data df =
     (if df_empty df then False
      else if ncols df < 2 then False
      else True)"

text \<open>The validation errors of the specification, as the messages the code returns.\<close>

datatype validation_error = EmptyInput | InsufficientColumns | DuplicateColumns

fun validation_message :: "validation_error \<Rightarrow> string" where
  "validation_message EmptyInput = ''The uploaded file is empty''"
| "validation_message InsufficientColumns = ''File must contain at least two columns''"
| "validation_message DuplicateColumns = ''File contains duplicate column names''"

text \<open>
  The specification's \<open>validate\<close>, following its words: the four bullets read in
  order, the first that applies deciding the result.
\<close>

definition spec_validate :: "table \<Rightarrow> validation_error option" where
  "spec_validate df =
     (if length (df_index df) = 0 \<or> length (df_columns df) = 0 then Some EmptyInput
      else if length (df_columns df) < 2 then Some InsufficientColumns
      else if (\<exists>i < length (df_columns df). \<exists>j < i.
                 col_name (df_columns df ! i) = col_name (df_columns df ! j))
        then Some DuplicateColumns
      else None)"

section \<open>Cleaning\<close>

subsection \<open>The pandas operations\<close>

text \<open>
  \<open>df.dropna(how='all')\<close> keeps the rows that have at least one cell that is not
  missing: a boolean mask over the row positions selects the labels of the index and
  the cells of every column.
\<close>

definition row_all_na :: "table \<Rightarrow> nat \<Rightarrow> bool" where
  "row_all_na df i = list_all (\<lambda>c. isna (col_cells c ! i)) (df_columns df)"

definition keep_mask :: "table \<Rightarrow> bool list" where
  "keep_mask df = map (\<lambda>i. \<not> row_all_na df i) [0..<nrows df]"

definition take_rows :: "bool list \<Rightarrow> 'a list \<Rightarrow> 'a list" where
  "take_rows keep xs = map fst (filter snd (zip xs keep))"

definition dropna_rows :: "table \<Rightarrow> table" where
  "dropna_rows df =
     \<lparr>df_index = take_rows (keep_mask df) (df_index df),
      df_columns =
        map (\<lambda>c. c\<lparr>col_cells := take_rows (keep_mask df) (col_cells c)\<rparr>) (df_columns df)\<rparr>"

text \<open>\<open>df.dropna(axis=1, how='all')\<close> keeps the columns that have a cell that is not missing.\<close>

definition col_all_na :: "column \<Rightarrow> bool" where
  "col_all_na c = list_all isna (col_cells c)"

definition dropna_cols :: "table \<Rightarrow> table" where
  "dropna_cols df = df\<lparr>df_columns := filter (\<lambda>c. \<not> col_all_na c) (df_columns df)\<rparr>"

text \<open>
  \<open>df.replace([float('inf'), float('-inf')], pd.NA)\<close>: in a column that holds an
  infinity, every infinity becomes the missing marker; \<open>pd.NA\<close> is not a float,
  so such a column is of dtype object afterwards. Other columns are untouched.
\<close>

definition replace_inf_col :: "column \<Rightarrow> column" where
  "replace_inf_col c =
     (if list_ex isinf (col_cells c)
      then c\<lparr>col_dtype := Object,
             col_cells := map (\<lambda>x. if isinf x then Missing else x) (col_cells c)\<rparr>
      else c)"

definition replace_inf :: "table \<Rightarrow> table" where
  "replace_inf df = df\<lparr>df_columns := map replace_inf_col (df_columns df)\<rparr>"

text \<open>
  \<open>pd.to_numeric\<close> on a series. A series of a numeric dtype is returned as it is.
  For a series of dtype object, \<open>maybe_convert_numeric\<close> of pandas reads the cells
  one after the other. A float or a missing value counts as a float. An empty text
  counts as missing. Any other text is read as a float and, when it is an integer
  literal, as an integer too, which must lie between the least int64 and the
  greatest uint64. How a text is read is pandas' business: the reader is the
  parameter \<open>p\<close>, \<open>None\<close> where the text is no number, else the float read and, for
  an integer literal, the integer read.

  The column is decided as a whole from what was seen. An integer above the int64
  range together with a negative integer or a missing value leaves the values as
  they were given, without an exception (\<open>check_uint64_conflict\<close>). Else a float
  anywhere makes the column float64, and every cell takes its float reading. Else
  the column is int64 or uint64 and every cell takes its integer.

  A text that is no number raises \<open>ValueError\<close>. With \<open>errors='ignore'\<close>
  \<open>pd.to_numeric\<close> swallows it and returns the series as given; without it
  (\<open>utils.py\<close>) the call raises.
\<close>

type_synonym reading = "number \<times> int option"

type_synonym parser = "string \<Rightarrow> reading option"

definition INT64_MIN :: int where
  "INT64_MIN = - 9223372036854775808"

definition INT64_MAX :: int where
  "INT64_MAX = 9223372036854775807"

definition UINT64_MAX :: int where
  "UINT64_MAX = 18446744073709551615"

definition read_text :: "parser \<Rightarrow> string \<Rightarrow> reading option" where
  "read_text p s = (if s = [] then Some (NaN, None) else p s)"

datatype item = FloatItem number | IntItem int number

definition at_position :: "string \<Rightarrow> nat \<Rightarrow> string" where
  "at_position m i = m @ '' at position '' @ decimal i"

fun classify :: "parser \<Rightarrow> nat \<Rightarrow> cell \<Rightarrow> exn + item" where
  "classify p i (Num v) = Inr (FloatItem v)"
| "classify p i (Str s) =
     (case read_text p s of
        None \<Rightarrow> Inl (ValueError (at_position (''Unable to parse string '' @ dquoted s) i))
      | Some (fval, None) \<Rightarrow> Inr (FloatItem fval)
      | Some (fval, Some as_int) \<Rightarrow>
          if as_int < INT64_MIN \<or> UINT64_MAX < as_int
          then Inl (ValueError (at_position ''Integer out of range.'' i))
          else Inr (IntItem as_int fval))"

fun classify_all :: "parser \<Rightarrow> nat \<Rightarrow> cell list \<Rightarrow> exn + item list" where
  "classify_all p i [] = Inr []"
| "classify_all p i (x # xs) =
     (case classify p i x of
        Inl e \<Rightarrow> Inl e
      | Inr it \<Rightarrow>
          (case classify_all p (Suc i) xs of
             Inl e \<Rightarrow> Inl e
           | Inr its \<Rightarrow> Inr (it # its)))"

fun float_of :: "item \<Rightarrow> number" where
  "float_of (FloatItem v) = v"
| "float_of (IntItem n v) = v"

fun int_value :: "item \<Rightarrow> number" where
  "int_value (IntItem n v) = Finite (of_int n)"
| "int_value (FloatItem v) = v"

fun is_float_item :: "item \<Rightarrow> bool" where
  "is_float_item (FloatItem v) = True"
| "is_float_item (IntItem n v) = False"

fun is_sint :: "item \<Rightarrow> bool" where
  "is_sint (IntItem n v) = (n < 0)"
| "is_sint (FloatItem v) = False"

fun is_uint :: "item \<Rightarrow> bool" where
  "is_uint (IntItem n v) = (INT64_MAX < n)"
| "is_uint (FloatItem v) = False"

definition seen_float :: "item list \<Rightarrow> bool" where
  "seen_float items = list_ex is_float_item items"

definition seen_null :: "item list \<Rightarrow> bool" where
  "seen_null items = list_ex (\<lambda>it. float_of it = NaN) items"

definition seen_sint :: "item list \<Rightarrow> bool" where
  "seen_sint items = list_ex is_sint items"

definition seen_uint :: "item list \<Rightarrow> bool" where
  "seen_uint items = list_ex is_uint items"

definition check_uint64_conflict :: "item list \<Rightarrow> bool" where
  "check_uint64_conflict items = (seen_uint items \<and> (seen_null items \<or> seen_sint items))"

definition maybe_convert_numeric :: "parser \<Rightarrow> cell list \<Rightarrow> exn + number list option" where
  "maybe_convert_numeric p values =
     (case classify_all p 0 values of
        Inl e \<Rightarrow> Inl e
      | Inr items \<Rightarrow>
          if check_uint64_conflict items then Inr None
          else if seen_float items then Inr (Some (map float_of items))
          else Inr (Some (map int_value items)))"

definition to_numeric_raise :: "parser \<Rightarrow> column \<Rightarrow> exn + column" where
  "to_numeric_raise p c =
     (if col_dtype c = Numeric then Inr c
      else
        (case maybe_convert_numeric p (col_cells c) of
           Inl e \<Rightarrow> Inl e
         | Inr None \<Rightarrow> Inr c
         | Inr (Some vs) \<Rightarrow> Inr (c\<lparr>col_dtype := Numeric, col_cells := map Num vs\<rparr>)))"

definition to_numeric_ignore :: "parser \<Rightarrow> column \<Rightarrow> column" where
  "to_numeric_ignore p c =
     (case to_numeric_raise p c of Inl e \<Rightarrow> c | Inr c' \<Rightarrow> c')"

text \<open>
  \<open>df[col]\<close> is a series when one column has the name and a data frame when
  several have it; a data frame has no attribute \<open>dtype\<close>. \<open>df[col] = s\<close> replaces
  the column of that name, or appends one when there is none.
\<close>

datatype selection = Series column | Frame "column list"

definition getitem :: "table \<Rightarrow> string \<Rightarrow> exn + selection" where
  "getitem df col =
     (case filter (\<lambda>c. col_name c = col) (df_columns df) of
        [] \<Rightarrow> Inl (KeyError col)
      | [c] \<Rightarrow> Inr (Series c)
      | c # cs \<Rightarrow> Inr (Frame (c # cs)))"

fun dtype_attr :: "selection \<Rightarrow> exn + dtype" where
  "dtype_attr (Series c) = Inr (col_dtype c)"
| "dtype_attr (Frame cs) =
     Inl (AttributeError (quoted ''DataFrame'' @ '' object has no attribute '' @ quoted ''dtype''))"

definition setitem :: "table \<Rightarrow> string \<Rightarrow> column \<Rightarrow> table" where
  "setitem df col s =
     (if col \<in> set (col_names df)
      then df\<lparr>df_columns :=
                map (\<lambda>c. if col_name c = col then s\<lparr>col_name := col\<rparr> else c) (df_columns df)\<rparr>
      else df\<lparr>df_columns := df_columns df @ [s\<lparr>col_name := col\<rparr>]\<rparr>)"

text \<open>
  The calls into pandas that compute, each able to raise. \<open>pandas p\<close> is the library
  as described above, where none of them raises on a data frame.
\<close>

record library =
  pd_dropna_rows :: "table \<Rightarrow> exn + table"
  pd_dropna_cols :: "table \<Rightarrow> exn + table"
  pd_replace_inf :: "table \<Rightarrow> exn + table"
  pd_to_numeric :: "selection \<Rightarrow> exn + column"

fun to_numeric_errors_ignore :: "parser \<Rightarrow> selection \<Rightarrow> exn + column" where
  "to_numeric_errors_ignore p (Series c) = Inr (to_numeric_ignore p c)"
| "to_numeric_errors_ignore p (Frame cs) = Inl (TypeError ''Invalid object type'')"

definition pandas :: "parser \<Rightarrow> library" where
  "pandas p =
     \<lparr>pd_dropna_rows = (\<lambda>df. Inr (dropna_rows df)),
      pd_dropna_cols = (\<lambda>df. Inr (dropna_cols df)),
      pd_replace_inf = (\<lambda>df. Inr (replace_inf df)),
      pd_to_numeric = to_numeric_errors_ignore p\<rparr>"

subsection \<open>\<open>process_data\<close>\<close>

text \<open>
  The body of the inner \<open>try\<close> for one column name: \<open>Inl\<close> when a statement raised
  (nothing has been assigned then), \<open>Inr\<close> the data frame after the assignment.
\<close>

definition convert_column :: "library \<Rightarrow> table \<Rightarrow> string \<Rightarrow> exn + table" where
  "convert_column lib df col =
     (case getitem df col of
        Inl e \<Rightarrow> Inl e
      | Inr s \<Rightarrow>
          (case dtype_attr s of
             Inl e \<Rightarrow> Inl e
           | Inr d \<Rightarrow>
               if d = Object
               then (case pd_to_numeric lib s of
                       Inl e \<Rightarrow> Inl e
                     | Inr c \<Rightarrow> Inr (setitem df col c))
               else Inr df))"

text \<open>The loop over \<open>df.columns\<close>; \<open>except Exception: continue\<close> drops the exception.\<close>

fun convert_loop :: "library \<Rightarrow> string list \<Rightarrow> table \<Rightarrow> table" where
  "convert_loop lib [] df = df"
| "convert_loop lib (col # cols) df =
     convert_loop lib cols
       (case convert_column lib df col of Inl e \<Rightarrow> df | Inr df' \<Rightarrow> df')"

text \<open>
  \<open>process_data\<close> of \<open>visualization.py\<close>. The result of a call is \<open>Inl\<close> an exception
  that reaches the caller, or \<open>Inr\<close> the data frame returned together with the
  messages shown by \<open>st.error\<close>. The handler of the outer \<open>try\<close> returns the data
  frame that the variable \<open>df\<close> holds when the exception is raised.
\<close>

definition report :: "exn \<Rightarrow> table \<Rightarrow> exn + table \<times> string list" where
  "report e df = Inr (df, [''Error processing data: '' @ str_exn e])"

definition process_data_with :: "library \<Rightarrow> table \<Rightarrow> exn + table \<times> string list" where
  "process_data_with lib df =
     (case pd_dropna_rows lib df of
        Inl e \<Rightarrow> report e df
      | Inr df1 \<Rightarrow>
          (case pd_dropna_cols lib df1 of
             Inl e \<Rightarrow> report e df1
           | Inr df2 \<Rightarrow>
               (case pd_replace_inf lib df2 of
                  Inl e \<Rightarrow> report e df2
                | Inr df3 \<Rightarrow> Inr (convert_loop lib (col_names df3) df3, []))))"

definition process_data :: "parser \<Rightarrow> table \<Rightarrow> exn + table \<times> string list" where
  "process_data p df = process_data_with (pandas p) df"

text \<open>
  \<open>process_data\<close> of \<open>utils.py\<close>, which the application does not call: no replacement
  of infinities, a loop over the names of the columns of dtype object
  (\<open>select_dtypes\<close>), \<open>pd.to_numeric\<close> without \<open>errors='ignore'\<close> under a bare
  \<open>except: pass\<close>, and no handler around the whole body.
\<close>

fun to_numeric_errors_raise :: "parser \<Rightarrow> selection \<Rightarrow> exn + column" where
  "to_numeric_errors_raise p (Series c) = to_numeric_raise p c"
| "to_numeric_errors_raise p (Frame cs) = Inl (TypeError ''Invalid object type'')"

definition pandas_strict :: "parser \<Rightarrow> library" where
  "pandas_strict p = (pandas p)\<lparr>pd_to_numeric := to_numeric_errors_raise p\<rparr>"

definition object_columns :: "table \<Rightarrow> string list" where
  "object_columns df = map col_name (filter (\<lambda>c. col_dtype c = Object) (df_columns df))"

definition utils_convert_column :: "library \<Rightarrow> table \<Rightarrow> string \<Rightarrow> exn + table" where
  "utils_convert_column lib df col =
     (case getitem df col of
        Inl e \<Rightarrow> Inl e
      | Inr s \<Rightarrow>
          (case pd_to_numeric lib s of
             Inl e \<Rightarrow> Inl e
           | Inr c \<Rightarrow> Inr (setitem df col c)))"

fun utils_convert_loop :: "library \<Rightarrow> string list \<Rightarrow> table \<Rightarrow> table" where
  "utils_convert_loop lib [] df = df"
| "utils_convert_loop lib (col # cols) df =
     utils_convert_loop lib cols
       (case utils_convert_column lib df col of Inl e \<Rightarrow> df | Inr df' \<Rightarrow> df')"

definition utils_process_data_with :: "library \<Rightarrow> table \<Rightarrow> exn + table" where
  "utils_process_data_with lib df =
     (case pd_dropna_rows lib df of
        Inl e \<Rightarrow> Inl e
      | Inr df1 \<Rightarrow>
          (case pd_dropna_cols lib df1 of
             Inl e \<Rightarrow> Inl e
           | Inr df2 \<Rightarrow> Inr (utils_convert_loop lib (object_columns df2) df2)))"

definition utils_process_data :: "parser \<Rightarrow> table \<Rightarrow> exn + table" where
  "utils_process_data p df = utils_process_data_with (pandas_strict p) df"

subsection \<open>Notions used to state the properties of cleaning\<close>

text \<open>The positions of the rows that \<open>dropna\<close> keeps, in increasing order.\<close>

definition kept_rows :: "table \<Rightarrow> nat list" where
  "kept_rows df = filter (\<lambda>i. \<not> row_all_na df i) [0..<nrows df]"

definition select_rows :: "nat list \<Rightarrow> column \<Rightarrow> column" where
  "select_rows is c = c\<lparr>col_cells := map (nth (col_cells c)) is\<rparr>"

text \<open>
  What one pass of the loop does to a column, given the column names of the data
  frame: a column of dtype object whose name no other column has is converted.
\<close>

definition convert1 :: "parser \<Rightarrow> string list \<Rightarrow> column \<Rightarrow> column" where
  "convert1 p names c =
     (if count_list names (col_name c) = 1 \<and> col_dtype c = Object
      then to_numeric_ignore p c else c)"

definition convert_all :: "parser \<Rightarrow> table \<Rightarrow> table" where
  "convert_all p df = df\<lparr>df_columns := map (convert1 p (col_names df)) (df_columns df)\<rparr>"

text \<open>
  The coercion of a column in the words of its cells. A cell parses as a number when
  it is a number already or a text that is read as one, an integer literal within
  the 64-bit range. The texts of a column conflict when one is an integer above the
  int64 range and another a negative integer or one read as missing. A column that
  is converted takes the integers of its cells when every cell is an integer
  literal, and their float readings otherwise.
\<close>

fun float_reading :: "parser \<Rightarrow> cell \<Rightarrow> number" where
  "float_reading p (Num v) = v"
| "float_reading p (Str s) = (case read_text p s of None \<Rightarrow> NaN | Some (fval, as_int) \<Rightarrow> fval)"

fun integer_reading :: "parser \<Rightarrow> cell \<Rightarrow> int option" where
  "integer_reading p (Num v) = None"
| "integer_reading p (Str s) = (case read_text p s of None \<Rightarrow> None | Some (fval, as_int) \<Rightarrow> as_int)"

fun parses :: "parser \<Rightarrow> cell \<Rightarrow> bool" where
  "parses p (Num v) = True"
| "parses p (Str s) =
     (case read_text p s of
        None \<Rightarrow> False
      | Some (fval, None) \<Rightarrow> True
      | Some (fval, Some n) \<Rightarrow> INT64_MIN \<le> n \<and> n \<le> UINT64_MAX)"

definition above_int64 :: "parser \<Rightarrow> cell \<Rightarrow> bool" where
  "above_int64 p x = (case integer_reading p x of None \<Rightarrow> False | Some n \<Rightarrow> INT64_MAX < n)"

definition negative_integer :: "parser \<Rightarrow> cell \<Rightarrow> bool" where
  "negative_integer p x = (case integer_reading p x of None \<Rightarrow> False | Some n \<Rightarrow> n < 0)"

definition uint64_conflict :: "parser \<Rightarrow> cell list \<Rightarrow> bool" where
  "uint64_conflict p xs =
     (list_ex (above_int64 p) xs
      \<and> (list_ex (\<lambda>x. float_reading p x = NaN) xs \<or> list_ex (negative_integer p) xs))"

definition all_integers :: "parser \<Rightarrow> cell list \<Rightarrow> bool" where
  "all_integers p xs = list_all (\<lambda>x. integer_reading p x \<noteq> None) xs"

definition read_as :: "parser \<Rightarrow> bool \<Rightarrow> cell \<Rightarrow> number" where
  "read_as p ints x =
     (case integer_reading p x of
        None \<Rightarrow> float_reading p x
      | Some n \<Rightarrow> if ints then Finite (of_int n) else float_reading p x)"

definition converts :: "parser \<Rightarrow> cell list \<Rightarrow> bool" where
  "converts p xs = (list_all (parses p) xs \<and> \<not> uint64_conflict p xs)"

definition numeric_column :: "parser \<Rightarrow> column \<Rightarrow> column" where
  "numeric_column p c =
     c\<lparr>col_dtype := Numeric,
       col_cells := map (\<lambda>x. Num (read_as p (all_integers p (col_cells c)) x)) (col_cells c)\<rparr>"

definition item_of :: "parser \<Rightarrow> cell \<Rightarrow> item" where
  "item_of p x =
     (case integer_reading p x of
        None \<Rightarrow> FloatItem (float_reading p x)
      | Some n \<Rightarrow> IntItem n (float_reading p x))"

text \<open>
  A cell is finite for a reader when it is no infinity and, if it is a text, the
  reader does not read it as an infinity or as the missing marker.
\<close>

fun finite_cell :: "parser \<Rightarrow> cell \<Rightarrow> bool" where
  "finite_cell p (Str s) =
     (case read_text p s of
        None \<Rightarrow> True
      | Some (fval, as_int) \<Rightarrow> fval \<noteq> PosInf \<and> fval \<noteq> NegInf \<and> fval \<noteq> NaN)"
| "finite_cell p (Num v) = (v \<noteq> PosInf \<and> v \<noteq> NegInf)"

definition finite_table :: "parser \<Rightarrow> table \<Rightarrow> bool" where
  "finite_table p df = list_all (\<lambda>c. list_all (finite_cell p) (col_cells c)) (df_columns df)"

section \<open>Chart construction\<close>

text \<open>
  The settings dictionary. The code reads \<open>chart_type\<close>, \<open>width\<close> and \<open>height\<close> by
  subscript, so they are present; the other keys are read with \<open>get\<close>, which gives
  \<open>None\<close> for a key that is absent.
\<close>

record settings =
  chart_type :: string
  color_scheme :: "string option"
  width :: int
  height :: int
  path_columns :: "string list option"
  values_column :: "string option"
  color_column :: "string option"

text \<open>The keyword arguments of the chart constructor, as the dictionary \<open>chart_params\<close>.\<close>

record chart_params =
  arg_data_frame :: table
  arg_path :: "string list"
  arg_width :: int
  arg_height :: int
  arg_values :: "string option"
  arg_color :: "string option"
  arg_color_continuous_scale :: "string option"

datatype chart_fn = Sunburst | Treemap | Icicle

definition chart_types :: "string \<Rightarrow> chart_fn option" where
  "chart_types =
     map_of [(''Sunburst'', Sunburst), (''Treemap'', Treemap), (''Icicle'', Icicle)]"

text \<open>
  The exceptions that \<open>create_chart\<close> raises itself, each a \<open>ValueError\<close> with the
  message that \<open>str_error\<close> gives, under the names the specification has for them.
  \<open>ColumnNotFound\<close> carries its message, which differs between the three places that
  raise it.
\<close>

datatype chart_error =
    MissingHierarchy
  | UnknownChartKind string
  | ColumnNotFound string

fun str_error :: "chart_error \<Rightarrow> string" where
  "str_error MissingHierarchy = ''No hierarchy columns selected''"
| "str_error (UnknownChartKind k) = ''Invalid chart type: '' @ k"
| "str_error (ColumnNotFound m) = m"

fun join :: "string \<Rightarrow> string list \<Rightarrow> string" where
  "join sep [] = []"
| "join sep [x] = x"
| "join sep (x # y # ys) = x @ sep @ join sep (y # ys)"

definition path_columns_not_found :: "string list \<Rightarrow> chart_error" where
  "path_columns_not_found missing_cols =
     ColumnNotFound (''Columns not found in data: '' @ join '', '' missing_cols)"

definition values_column_not_found :: "string \<Rightarrow> chart_error" where
  "values_column_not_found v =
     ColumnNotFound (''Values column '' @ quoted v @ '' not found in data'')"

definition color_column_not_found :: "string \<Rightarrow> chart_error" where
  "color_column_not_found v =
     ColumnNotFound (''Color column '' @ quoted v @ '' not found in data'')"

text \<open>The truth value Python gives to \<open>settings.get(key)\<close>: false for \<open>None\<close> and for an empty value.\<close>

definition truthy :: "'a list option \<Rightarrow> bool" where
  "truthy v = (case v of None \<Rightarrow> False | Some x \<Rightarrow> x \<noteq> [])"

definition missing_cols :: "table \<Rightarrow> string list \<Rightarrow> string list" where
  "missing_cols df path = filter (\<lambda>col. col \<notin> set (col_names df)) path"

definition add_values :: "table \<Rightarrow> settings \<Rightarrow> chart_params \<Rightarrow> chart_error + chart_params" where
  "add_values df s ps =
     (case values_column s of
        None \<Rightarrow> Inr ps
      | Some v \<Rightarrow>
          if truthy (Some v) \<and> v \<noteq> ''None''
          then (if v \<notin> set (col_names df) then Inl (values_column_not_found v)
                else Inr (ps\<lparr>arg_values := Some v\<rparr>))
          else Inr ps)"

definition add_color :: "table \<Rightarrow> settings \<Rightarrow> chart_params \<Rightarrow> chart_error + chart_params" where
  "add_color df s ps =
     (case color_column s of
        None \<Rightarrow> Inr ps
      | Some v \<Rightarrow>
          if truthy (Some v) \<and> v \<noteq> ''None''
          then (if v \<notin> set (col_names df) then Inl (color_column_not_found v)
                else Inr (ps\<lparr>arg_color := Some v\<rparr>))
          else Inr ps)"

definition add_color_scheme :: "settings \<Rightarrow> chart_params \<Rightarrow> chart_params" where
  "add_color_scheme s ps =
     (case color_scheme s of
        None \<Rightarrow> ps
      | Some v \<Rightarrow>
          if truthy (Some v) \<and> v \<noteq> ''Default''
          then ps\<lparr>arg_color_continuous_scale := Some v\<rparr>
          else ps)"

text \<open>
  Lines 73 to 111 of \<open>create_chart\<close>: the checks and the chart parameters, up to the
  call of the chart constructor. \<open>Inl\<close> is the exception raised.
\<close>

definition chart_arguments :: "table \<Rightarrow> settings \<Rightarrow> chart_error + chart_fn \<times> chart_params" where
  "chart_arguments df s =
     (if \<not> truthy (path_columns s) then Inl MissingHierarchy
      else
        (case chart_types (chart_type s) of
           None \<Rightarrow> Inl (UnknownChartKind (chart_type s))
         | Some chart_fn \<Rightarrow>
             (case path_columns s of
                None \<Rightarrow> Inl MissingHierarchy
              | Some path \<Rightarrow>
                  if missing_cols df path \<noteq> []
                  then Inl (path_columns_not_found (missing_cols df path))
                  else
                    (case add_values df s
                            \<lparr>arg_data_frame = df, arg_path = path,
                             arg_width = width s, arg_height = height s,
                             arg_values = None, arg_color = None,
                             arg_color_continuous_scale = None\<rparr> of
                       Inl e \<Rightarrow> Inl e
                     | Inr ps1 \<Rightarrow>
                         (case add_color df s ps1 of
                            Inl e \<Rightarrow> Inl e
                          | Inr ps2 \<Rightarrow> Inr (chart_fn, add_color_scheme s ps2))))))"

text \<open>
  \<open>create_chart\<close>. The chart constructor of plotly and the layout update are the
  parameter \<open>render\<close>, which may raise. Every exception is caught: the message goes
  to \<open>st.error\<close> and the result is \<open>None\<close>. (The checkbox that shows the traceback is
  not modelled.)
\<close>

definition show_error :: "string \<Rightarrow> string list" where
  "show_error m = [''Error creating visualization: '' @ m]"

definition create_chart ::
  "(chart_fn \<Rightarrow> chart_params \<Rightarrow> exn + 'fig) \<Rightarrow> table \<Rightarrow> settings \<Rightarrow> 'fig option \<times> string list" where
  "create_chart render df s =
     (case chart_arguments df s of
        Inl e \<Rightarrow> (None, show_error (str_error e))
      | Inr (chart_fn, ps) \<Rightarrow>
          (case render chart_fn ps of
             Inl e \<Rightarrow> (None, show_error (str_exn e))
           | Inr fig \<Rightarrow> (Some fig, [])))"

text \<open>
  The validation sequence of the specification, following its words: five checks,
  each giving the error it fails with, and the first failing check deciding. A
  setting is set when it is present and not empty.
\<close>

definition is_set :: "string option \<Rightarrow> bool" where
  "is_set v = (v \<noteq> None \<and> v \<noteq> Some [] \<and> v \<noteq> Some ''None'')"

definition check_hierarchy :: "settings \<Rightarrow> chart_error option" where
  "check_hierarchy s =
     (if path_columns s = None \<or> path_columns s = Some [] then Some MissingHierarchy else None)"

definition check_kind :: "settings \<Rightarrow> chart_error option" where
  "check_kind s =
     (if chart_type s \<in> {''Sunburst'', ''Treemap'', ''Icicle''} then None
      else Some (UnknownChartKind (chart_type s)))"

definition check_path :: "table \<Rightarrow> settings \<Rightarrow> chart_error option" where
  "check_path df s =
     (case path_columns s of
        None \<Rightarrow> None
      | Some path \<Rightarrow>
          if set path \<subseteq> set (col_names df) then None
          else Some (path_columns_not_found (filter (\<lambda>c. c \<notin> set (col_names df)) path)))"

definition check_values :: "table \<Rightarrow> settings \<Rightarrow> chart_error option" where
  "check_values df s =
     (case values_column s of
        None \<Rightarrow> None
      | Some v \<Rightarrow>
          if is_set (Some v) \<and> v \<notin> set (col_names df)
          then Some (values_column_not_found v) else None)"

definition check_color :: "table \<Rightarrow> settings \<Rightarrow> chart_error option" where
  "check_color df s =
     (case color_column s of
        None \<Rightarrow> None
      | Some v \<Rightarrow>
          if is_set (Some v) \<and> v \<notin> set (col_names df)
          then Some (color_column_not_found v) else None)"

fun first_failure :: "chart_error option list \<Rightarrow> chart_error option" where
  "first_failure [] = None"
| "first_failure (None # cs) = first_failure cs"
| "first_failure (Some e # cs) = Some e"

definition validation_sequence :: "table \<Rightarrow> settings \<Rightarrow> chart_error option" where
  "validation_sequence df s =
     first_failure
       [check_hierarchy s, check_kind s, check_path df s, check_values df s, check_color df s]"

section \<open>A reader of integer literals\<close>

text \<open>
  An instance of the reader of numbers, for the examples: an optional minus sign and
  decimal digits, read as an integer and as the float of the same value. Every other
  text is no number for it.
\<close>

definition digit_of :: "char \<Rightarrow> nat option" where
  "digit_of =
     map_of [(CHR ''0'', 0), (CHR ''1'', 1), (CHR ''2'', 2), (CHR ''3'', 3), (CHR ''4'', 4),
             (CHR ''5'', 5), (CHR ''6'', 6), (CHR ''7'', 7), (CHR ''8'', 8), (CHR ''9'', 9)]"

fun digits_value :: "nat \<Rightarrow> string \<Rightarrow> nat option" where
  "digits_value acc [] = Some acc"
| "digits_value acc (c # cs) =
     (case digit_of c of None \<Rightarrow> None | Some d \<Rightarrow> digits_value (10 * acc + d) cs)"

definition read_integer :: parser where
  "read_integer s =
     (case s of
        [] \<Rightarrow> None
      | c # cs \<Rightarrow>
          if c = CHR ''-''
          then (if cs = [] then None
                else map_option (\<lambda>n. (Finite (- of_nat n), Some (- int n))) (digits_value 0 cs))
          else map_option (\<lambda>n. (Finite (of_nat n), Some (int n))) (digits_value 0 s))"

section \<open>Example tables\<close>

text \<open>Three columns and two rows, as read from a CSV file of sales by region.\<close>

definition sales_table :: table where
  "sales_table =
     \<lparr>df_index = [0, 1],
      df_columns =
        [\<lparr>col_name = ''Region'', col_dtype = Object,
          col_cells = [Str ''Europe'', Str ''Asia'']\<rparr>,
         \<lparr>col_name = ''Country'', col_dtype = Object,
          col_cells = [Str ''France'', Str ''Japan'']\<rparr>,
         \<lparr>col_name = ''Sales'', col_dtype = Numeric,
          col_cells = [Num (Finite 10), Num (Finite 20)]\<rparr>]\<rparr>"

text \<open>
  The settings of the specification's end-to-end scenario, and a chart constructor that
  never raises and returns the chart function with its arguments.
\<close>

definition sunburst_settings :: settings where
  "sunburst_settings =
     \<lparr>chart_type = ''Sunburst'', color_scheme = Some ''Default'', width = 800, height = 800,
      path_columns = Some [''Region'', ''Country''], values_column = Some ''Sales'',
      color_column = Some ''None''\<rparr>"

definition draw :: "chart_fn \<Rightarrow> chart_params \<Rightarrow> exn + chart_fn \<times> chart_params" where
  "draw chart_fn ps = Inr (chart_fn, ps)"

text \<open>
  A data frame in which two columns have the same name, and a library whose
  replacement of infinities raises.
\<close>

definition twin_table :: table where
  "twin_table =
     \<lparr>df_index = [0],
      df_columns =
        [\<lparr>col_name = ''a'', col_dtype = Object, col_cells = [Str ''1'']\<rparr>,
         \<lparr>col_name = ''a'', col_dtype = Object, col_cells = [Str ''2'']\<rparr>]\<rparr>"

definition failing_library :: library where
  "failing_library =
     (pandas read_integer)\<lparr>pd_replace_inf := (\<lambda>df. Inl (TypeError ''replace failed''))\<rparr>"

text \<open>
  A data frame with a row and a column in which every cell is missing, and one with a
  row in which every cell is an infinity.
\<close>

definition gaps_table :: table where
  "gaps_table =
     \<lparr>df_index = [0, 1, 2],
      df_columns =
        [\<lparr>col_name = ''a'', col_dtype = Object,
          col_cells = [Str ''x'', Missing, Str ''y'']\<rparr>,
         \<lparr>col_name = ''b'', col_dtype = Numeric,
          col_cells = [Missing, Missing, Missing]\<rparr>,
         \<lparr>col_name = ''c'', col_dtype = Numeric,
          col_cells = [Num (Finite 1), Missing, Num (Finite 2)]\<rparr>]\<rparr>"

definition inf_table :: table where
  "inf_table =
     \<lparr>df_index = [0, 1],
      df_columns =
        [\<lparr>col_name = ''a'', col_dtype = Numeric,
          col_cells = [Num (Finite 1), Num PosInf]\<rparr>,
         \<lparr>col_name = ''b'', col_dtype = Numeric,
          col_cells = [Num (Finite 2), Num NegInf]\<rparr>]\<rparr>"

text \<open>The two columns of the specification's example of numeric coercion.\<close>

definition text_table :: table where
  "text_table =
     \<lparr>df_index = [0, 1, 2],
      df_columns =
        [\<lparr>col_name = ''a'', col_dtype = Object,
          col_cells = [Str ''1'', Str ''2'', Str ''x'']\<rparr>,
         \<lparr>col_name = ''b'', col_dtype = Object,
          col_cells = [Str ''1'', Str ''2'', Str ''3'']\<rparr>]\<rparr>"

text \<open>
  Three columns of integer literals: the greatest int64 plus one beside a small
  integer, a negative integer beside a small one, and the two together.
\<close>

definition uint_table :: table where
  "uint_table =
     \<lparr>df_index = [0, 1],
      df_columns =
        [\<lparr>col_name = ''a'', col_dtype = Object,
          col_cells = [Str ''9223372036854775808'', Str ''1'']\<rparr>,
         \<lparr>col_name = ''b'', col_dtype = Object,
          col_cells = [Str ''-1'', Str ''1'']\<rparr>,
         \<lparr>col_name = ''c'', col_dtype = Object,
          col_cells = [Str ''9223372036854775808'', Str ''-1'']\<rparr>]\<rparr>"

text \<open>What one call and what two calls of \<open>process_data\<close> make of \<open>inf_table\<close>.\<close>

definition inf_table_once :: table where
  "inf_table_once =
     \<lparr>df_index = [0, 1],
      df_columns =
        [\<lparr>col_name = ''a'', col_dtype = Numeric, col_cells = [Num (Finite 1), Missing]\<rparr>,
         \<lparr>col_name = ''b'', col_dtype = Numeric, col_cells = [Num (Finite 2), Missing]\<rparr>]\<rparr>"

definition inf_table_twice :: table where
  "inf_table_twice =
     \<lparr>df_index = [0],
      df_columns =
        [\<lparr>col_name = ''a'', col_dtype = Numeric, col_cells = [Num (Finite 1)]\<rparr>,
         \<lparr>col_name = ''b'', col_dtype = Numeric, col_cells = [Num (Finite 2)]\<rparr>]\<rparr>"

section \<open>Properties of validation\<close>

lemma repeats_iff_not_distinct:
  "(\<exists>i < length xs. \<exists>j < i. f (xs ! i) = f (xs ! j)) \<longleftrightarrow> \<not> distinct (map f xs)"
proof
  assume "\<exists>i < length xs. \<exists>j < i. f (xs ! i) = f (xs ! j)"
  then obtain i j where "i < length xs" "j < i" "f (xs ! i) = f (xs ! j)" by blast
  then have "i < length xs \<and> j < length xs \<and> i \<noteq> j \<and> f (xs ! i) = f (xs ! j)" by simp
  then show "\<not> distinct (map f xs)"
    unfolding distinct_conv_nth by (metis length_map nth_map)
next
  assume "\<not> distinct (map f xs)"
  then obtain i j where ij: "i < length xs" "j < length xs" "i \<noteq> j" "f (xs ! i) = f (xs ! j)"
    by (auto simp: distinct_conv_nth)
  show "\<exists>i < length xs. \<exists>j < i. f (xs ! i) = f (xs ! j)"
  proof (cases "j < i")
    case True
    with ij show ?thesis by blast
  next
    case False
    with ij have "i < j" by simp
    with ij show ?thesis by metis
  qed
qed

text \<open>
  Claim C2. On every table, \<open>validate_data\<close> gives the result of the specification's
  \<open>validate\<close>: invalid with the message of \<open>EmptyInput\<close> when the table has no row
  or no column, else invalid with the message of \<open>InsufficientColumns\<close> when it has
  fewer than two columns, else invalid with the message of \<open>DuplicateColumns\<close> when a
  column name repeats, and valid with the empty message otherwise. So it succeeds
  exactly when the table has a row, at least two columns and pairwise distinct
  column names.
\<close>

theorem validate_data_spec:
  "validate_data (Some df) =
     (case spec_validate df of None \<Rightarrow> (True, '''') | Some e \<Rightarrow> (False, validation_message e))
   \<and> (fst (validate_data (Some df)) \<longleftrightarrow>
        0 < nrows df \<and> 2 \<le> ncols df \<and> distinct (col_names df))"
  by (auto simp: validate_data_def spec_validate_def df_empty_def nrows_def ncols_def
        columns_duplicated_any_def col_names_def repeats_iff_not_distinct)

theorem validate_data_spec_witness:
  "validate_data (Some sales_table) = (True, '''') \<and> spec_validate sales_table = None"
proof -
  have v: "validate_data (Some sales_table) = (True, '''')"
    by (simp add: validate_data_def sales_table_def df_empty_def nrows_def ncols_def
          columns_duplicated_any_def col_names_def)
  from validate_data_spec [of sales_table] v show ?thesis
    by (cases "spec_validate sales_table") auto
qed

text \<open>
  The variant in \<open>utils.py\<close>, which the application does not call, agrees with
  \<open>validate_data\<close> on tables whose column names are distinct and accepts repeated
  names otherwise.
\<close>

lemma utils_validate_data_iff:
  "utils_validate_data df \<longleftrightarrow> 0 < nrows df \<and> 2 \<le> ncols df"
  by (auto simp: utils_validate_data_def df_empty_def)

lemma utils_validate_data_agrees:
  "distinct (col_names df) \<Longrightarrow> utils_validate_data df = fst (validate_data (Some df))"
  by (auto simp: utils_validate_data_def validate_data_def df_empty_def
        columns_duplicated_any_def)

section \<open>Properties of chart construction\<close>

lemma chart_types_known:
  "chart_types k = None \<longleftrightarrow> k \<notin> {''Sunburst'', ''Treemap'', ''Icicle''}"
  by (simp add: chart_types_def)

lemma check_kind_eq:
  "check_kind s = (case chart_types (chart_type s) of None \<Rightarrow> Some (UnknownChartKind (chart_type s)) | Some f \<Rightarrow> None)"
proof (cases "chart_types (chart_type s)")
  case None
  then show ?thesis using chart_types_known [of "chart_type s"] by (simp add: check_kind_def)
next
  case (Some f)
  then show ?thesis using chart_types_known [of "chart_type s"] by (simp add: check_kind_def)
qed

lemma check_path_eq:
  "check_path df s =
     (case path_columns s of None \<Rightarrow> None
      | Some path \<Rightarrow> if missing_cols df path = [] then None
                     else Some (path_columns_not_found (missing_cols df path)))"
  by (auto simp: check_path_def missing_cols_def filter_empty_conv split: option.splits)

lemma add_values_eq:
  "add_values df s ps =
     (case check_values df s of
        Some e \<Rightarrow> Inl e
      | None \<Rightarrow> Inr (if is_set (values_column s) then ps\<lparr>arg_values := values_column s\<rparr> else ps))"
  by (simp add: add_values_def check_values_def is_set_def truthy_def split: option.splits)

lemma add_color_eq:
  "add_color df s ps =
     (case check_color df s of
        Some e \<Rightarrow> Inl e
      | None \<Rightarrow> Inr (if is_set (color_column s) then ps\<lparr>arg_color := color_column s\<rparr> else ps))"
  by (simp add: add_color_def check_color_def is_set_def truthy_def split: option.splits)

lemma check_hierarchy_eq:
  "check_hierarchy s = (if truthy (path_columns s) then None else Some MissingHierarchy)"
  by (simp add: check_hierarchy_def truthy_def split: option.splits)

lemma chart_arguments_error_iff:
  "chart_arguments df s = Inl e \<longleftrightarrow> validation_sequence df s = Some e"
proof (cases "truthy (path_columns s)")
  case False
  then show ?thesis
    by (auto simp: chart_arguments_def validation_sequence_def check_hierarchy_eq)
next
  case True
  then obtain path where path: "path_columns s = Some path"
    by (auto simp: truthy_def split: option.splits)
  show ?thesis
  proof (cases "chart_types (chart_type s)")
    case None
    with True show ?thesis
      by (auto simp: chart_arguments_def validation_sequence_def check_hierarchy_eq check_kind_eq)
  next
    case (Some f)
    show ?thesis
    proof (cases "missing_cols df path = []")
      case False
      with True Some path show ?thesis
        by (auto simp: chart_arguments_def validation_sequence_def check_hierarchy_eq
              check_kind_eq check_path_eq)
    next
      case nomiss: True
      show ?thesis
      proof (cases "check_values df s")
        case (Some e1)
        with True \<open>chart_types (chart_type s) = Some f\<close> path nomiss show ?thesis
          by (auto simp: chart_arguments_def validation_sequence_def check_hierarchy_eq
              check_kind_eq check_path_eq add_values_eq)
      next
        case None
        with True \<open>chart_types (chart_type s) = Some f\<close> path nomiss show ?thesis
          by (cases "check_color df s")
             (auto simp: chart_arguments_def validation_sequence_def check_hierarchy_eq
              check_kind_eq check_path_eq add_values_eq add_color_eq)
      qed
    qed
  qed
qed

lemma create_chart_error:
  "chart_arguments df s = Inl e \<Longrightarrow> create_chart render df s = (None, show_error (str_error e))"
  by (simp add: create_chart_def)

text \<open>
  Claim C3. For every table and settings, \<open>create_chart\<close> raises the error \<open>e\<close>
  in its checks exactly when \<open>e\<close> is the error of the first failing check of the
  validation sequence (hierarchy, chart kind, path columns, values column, color
  column, in this order); it then shows the message of \<open>e\<close> and returns no chart.
\<close>

theorem create_chart_first_failing_check:
  "(chart_arguments df s = Inl e \<longleftrightarrow> validation_sequence df s = Some e)
   \<and> (validation_sequence df s = Some e \<longrightarrow>
        create_chart render df s = (None, show_error (str_error e)))"
  using chart_arguments_error_iff [of df s e] create_chart_error [of df s e render] by blast

theorem create_chart_first_failing_check_witness:
  "validation_sequence sales_table
     (sunburst_settings\<lparr>values_column := Some ''Nonexistent'', color_column := Some ''Absent''\<rparr>)
     = Some (values_column_not_found ''Nonexistent'')
   \<and> create_chart draw sales_table
     (sunburst_settings\<lparr>values_column := Some ''Nonexistent'', color_column := Some ''Absent''\<rparr>)
     = (None, show_error (str_error (values_column_not_found ''Nonexistent'')))"
proof -
  let ?s = "sunburst_settings\<lparr>values_column := Some ''Nonexistent'', color_column := Some ''Absent''\<rparr>"
  have "validation_sequence sales_table ?s = Some (values_column_not_found ''Nonexistent'')"
    by (simp add: validation_sequence_def check_hierarchy_def check_kind_def check_path_def
          check_values_def check_color_def is_set_def sunburst_settings_def sales_table_def
          col_names_def)
  with create_chart_first_failing_check
         [of sales_table ?s "values_column_not_found ''Nonexistent''" draw]
  show ?thesis by simp
qed

text \<open>
  Claim C7. With an empty list of path columns \<open>create_chart\<close> fails with
  \<open>MissingHierarchy\<close>, whatever the table, the chart constructor and the other
  settings are: it shows the message and returns no chart.
\<close>

theorem create_chart_missing_hierarchy:
  "path_columns s = Some [] \<Longrightarrow>
     chart_arguments df s = Inl MissingHierarchy
     \<and> create_chart render df s =
         (None, [''Error creating visualization: No hierarchy columns selected''])"
  by (simp add: chart_arguments_def create_chart_def truthy_def show_error_def)

theorem create_chart_missing_hierarchy_witness:
  "path_columns (sunburst_settings\<lparr>chart_type := ''Pie'', path_columns := Some []\<rparr>) = Some []
   \<and> create_chart draw sales_table (sunburst_settings\<lparr>chart_type := ''Pie'', path_columns := Some []\<rparr>)
       = (None, [''Error creating visualization: No hierarchy columns selected''])"
  using create_chart_missing_hierarchy
          [of "sunburst_settings\<lparr>chart_type := ''Pie'', path_columns := Some []\<rparr>" sales_table draw]
  by simp

lemma join_mentions: "c \<in> set xs \<Longrightarrow> \<exists>a b. join sep xs = a @ c @ b"
proof (induction sep xs rule: join.induct)
  case (1 sep)
  then show ?case by simp
next
  case (2 sep x)
  then have "join sep [x] = [] @ c @ []" by simp
  then show ?case by blast
next
  case (3 sep x y ys)
  show ?case
  proof (cases "c = x")
    case True
    then have "join sep (x # y # ys) = [] @ c @ (sep @ join sep (y # ys))" by simp
    then show ?thesis by blast
  next
    case False
    with 3 obtain a b where "join sep (y # ys) = a @ c @ b" by auto
    then have "join sep (x # y # ys) = (x @ sep @ a) @ c @ b" by simp
    then show ?thesis by blast
  qed
qed

text \<open>
  Claim C8, as stated, fails: with an unknown chart kind the check of the chart kind
  comes first, and the error is \<open>UnknownChartKind\<close> although the path column \<open>X\<close> is
  absent from the table.
\<close>

theorem path_column_not_found_counterexample:
  "missing_cols sales_table [''X''] = [''X'']
   \<and> chart_arguments sales_table
       (sunburst_settings\<lparr>chart_type := ''Pie'', path_columns := Some [''X'']\<rparr>)
       = Inl (UnknownChartKind ''Pie'')
   \<and> create_chart draw sales_table
       (sunburst_settings\<lparr>chart_type := ''Pie'', path_columns := Some [''X'']\<rparr>)
       = (None, [''Error creating visualization: Invalid chart type: Pie''])"
  by (simp add: chart_arguments_def create_chart_def truthy_def chart_types_def show_error_def
        missing_cols_def sales_table_def sunburst_settings_def col_names_def)

text \<open>
  Claim C8, amended. When the chart kind is one of the three known kinds and one or
  more names in \<open>path_columns\<close> are absent from the table's columns, \<open>create_chart\<close>
  fails with \<open>ColumnNotFound\<close>; the message is \<open>Columns not found in data: \<close> followed
  by the absent names in the order of \<open>path_columns\<close>, joined by a comma and a space,
  so it mentions each of them, and no chart is returned.
\<close>

theorem path_column_not_found:
  assumes "chart_types (chart_type s) \<noteq> None"
    and "path_columns s = Some path"
    and "missing_cols df path \<noteq> []"
  shows "chart_arguments df s =
           Inl (ColumnNotFound (''Columns not found in data: '' @ join '', '' (missing_cols df path)))
         \<and> create_chart render df s =
           (None, [''Error creating visualization: Columns not found in data: ''
                   @ join '', '' (missing_cols df path)])
         \<and> set (missing_cols df path) = {c \<in> set path. c \<notin> set (col_names df)}
         \<and> (\<forall>c \<in> set (missing_cols df path). \<exists>a b. join '', '' (missing_cols df path) = a @ c @ b)"
proof -
  from assms(3) have "path \<noteq> []" by (auto simp: missing_cols_def)
  with assms have args: "chart_arguments df s = Inl (path_columns_not_found (missing_cols df path))"
    by (auto simp: chart_arguments_def truthy_def)
  then have "create_chart render df s =
      (None, show_error (str_error (path_columns_not_found (missing_cols df path))))"
    by (rule create_chart_error)
  with args show ?thesis
    by (auto simp: path_columns_not_found_def show_error_def missing_cols_def join_mentions)
qed

theorem path_column_not_found_witness:
  "chart_types (chart_type (sunburst_settings\<lparr>path_columns := Some [''X'', ''Region'', ''Y'']\<rparr>)) \<noteq> None
   \<and> missing_cols sales_table [''X'', ''Region'', ''Y''] = [''X'', ''Y'']
   \<and> create_chart draw sales_table (sunburst_settings\<lparr>path_columns := Some [''X'', ''Region'', ''Y'']\<rparr>)
       = (None, [''Error creating visualization: Columns not found in data: X, Y''])"
proof -
  let ?s = "sunburst_settings\<lparr>path_columns := Some [''X'', ''Region'', ''Y'']\<rparr>"
  have k: "chart_types (chart_type ?s) \<noteq> None"
    by (simp add: chart_types_def sunburst_settings_def)
  have p: "path_columns ?s = Some [''X'', ''Region'', ''Y'']" by simp
  have m: "missing_cols sales_table [''X'', ''Region'', ''Y''] = [''X'', ''Y'']"
    by (simp add: missing_cols_def sales_table_def col_names_def)
  then have "missing_cols sales_table [''X'', ''Region'', ''Y''] \<noteq> []" by simp
  from path_column_not_found [OF k p this, of draw] k m show ?thesis by simp
qed

text \<open>
  Claim C9, as stated, fails: the sentinel of the code is the text \<open>None\<close> with a
  capital letter. A values column given as \<open>none\<close> is looked up in the table like any
  other name, and the call fails when the table has no such column.
\<close>

theorem sentinel_counterexample:
  "chart_arguments sales_table (sunburst_settings\<lparr>values_column := Some ''none''\<rparr>)
     = Inl (values_column_not_found ''none'')
   \<and> create_chart draw sales_table (sunburst_settings\<lparr>values_column := Some ''none''\<rparr>)
     = (None, [''Error creating visualization: Values column '' @ quoted ''none''
               @ '' not found in data''])"
  by (simp add: chart_arguments_def create_chart_def truthy_def chart_types_def show_error_def
        missing_cols_def sales_table_def sunburst_settings_def col_names_def add_values_def
        values_column_not_found_def)

lemma add_color_scheme_eq:
  "add_color_scheme s ps =
     (if color_scheme s = None \<or> color_scheme s = Some [] \<or> color_scheme s = Some ''Default''
      then ps else ps\<lparr>arg_color_continuous_scale := color_scheme s\<rparr>)"
  by (simp add: add_color_scheme_def truthy_def split: option.splits)

lemma add_values_unset:
  "\<not> is_set (values_column s) \<Longrightarrow> add_values df s ps = Inr ps"
  by (auto simp: add_values_def is_set_def truthy_def split: option.splits)

lemma add_color_unset:
  "\<not> is_set (color_column s) \<Longrightarrow> add_color df s ps = Inr ps"
  by (auto simp: add_color_def is_set_def truthy_def split: option.splits)

lemma add_values_update [simp]:
  "add_values df (s\<lparr>color_column := v\<rparr>) ps = add_values df s ps"
  "add_values df (s\<lparr>color_scheme := v\<rparr>) ps = add_values df s ps"
  by (simp_all add: add_values_def)

lemma add_color_update [simp]:
  "add_color df (s\<lparr>values_column := v\<rparr>) ps = add_color df s ps"
  "add_color df (s\<lparr>color_scheme := v\<rparr>) ps = add_color df s ps"
  by (simp_all add: add_color_def)

lemma add_color_scheme_update [simp]:
  "add_color_scheme (s\<lparr>values_column := v\<rparr>) ps = add_color_scheme s ps"
  "add_color_scheme (s\<lparr>color_column := v\<rparr>) ps = add_color_scheme s ps"
  by (simp_all add: add_color_scheme_def)

lemma values_unset_as_absent:
  "\<not> is_set (values_column s) \<Longrightarrow>
     chart_arguments df s = chart_arguments df (s\<lparr>values_column := None\<rparr>)"
proof -
  assume "\<not> is_set (values_column s)"
  then have a: "add_values df s ps = Inr ps" for ps by (rule add_values_unset)
  have b: "add_values df (s\<lparr>values_column := None\<rparr>) ps = Inr ps" for ps
    by (simp add: add_values_def)
  show ?thesis
    by (simp add: chart_arguments_def a b split: option.splits sum.splits)
qed

lemma color_unset_as_absent:
  "\<not> is_set (color_column s) \<Longrightarrow>
     chart_arguments df s = chart_arguments df (s\<lparr>color_column := None\<rparr>)"
proof -
  assume "\<not> is_set (color_column s)"
  then have a: "add_color df s ps = Inr ps" for ps by (rule add_color_unset)
  have b: "add_color df (s\<lparr>color_column := None\<rparr>) ps = Inr ps" for ps
    by (simp add: add_color_def)
  show ?thesis
    by (simp add: chart_arguments_def a b split: option.splits sum.splits)
qed

lemma scheme_default_as_absent:
  "color_scheme s = Some [] \<or> color_scheme s = Some ''Default'' \<Longrightarrow>
     chart_arguments df s = chart_arguments df (s\<lparr>color_scheme := None\<rparr>)"
proof -
  assume "color_scheme s = Some [] \<or> color_scheme s = Some ''Default''"
  then have a: "add_color_scheme s ps = ps" for ps by (auto simp: add_color_scheme_eq)
  have b: "add_color_scheme (s\<lparr>color_scheme := None\<rparr>) ps = ps" for ps
    by (simp add: add_color_scheme_def)
  show ?thesis
    by (simp add: chart_arguments_def a b split: option.splits sum.splits)
qed

lemma chart_arguments_optional:
  assumes "chart_arguments df s = Inr (f, ps)"
  shows "arg_values ps = (if is_set (values_column s) then values_column s else None)"
    and "arg_color ps = (if is_set (color_column s) then color_column s else None)"
    and "arg_color_continuous_scale ps =
           (if color_scheme s = None \<or> color_scheme s = Some [] \<or> color_scheme s = Some ''Default''
            then None else color_scheme s)"
  using assms
  by (auto simp: chart_arguments_def add_values_eq add_color_eq add_color_scheme_eq
        split: if_splits option.splits)

text \<open>
  Claim C9, amended. The sentinel is the text \<open>None\<close>. A values column or color
  column that is unset, empty or \<open>None\<close> is treated as absent: \<open>create_chart\<close>
  checks and builds exactly as if the setting were not there, and the chart
  parameters carry no sizing or coloring field. A color scheme that is unset, empty
  or \<open>Default\<close> is treated as absent too and attaches no palette; every other color
  scheme is attached as the continuous palette, whatever the color column is.
\<close>

theorem sentinel_handling:
  "(\<not> is_set (values_column s) \<longrightarrow>
      chart_arguments df s = chart_arguments df (s\<lparr>values_column := None\<rparr>))
   \<and> (\<not> is_set (color_column s) \<longrightarrow>
      chart_arguments df s = chart_arguments df (s\<lparr>color_column := None\<rparr>))
   \<and> (color_scheme s = Some [] \<or> color_scheme s = Some ''Default'' \<longrightarrow>
      chart_arguments df s = chart_arguments df (s\<lparr>color_scheme := None\<rparr>))
   \<and> (chart_arguments df s = Inr (f, ps) \<longrightarrow>
      arg_values ps = (if is_set (values_column s) then values_column s else None)
      \<and> arg_color ps = (if is_set (color_column s) then color_column s else None)
      \<and> arg_color_continuous_scale ps =
          (if color_scheme s = None \<or> color_scheme s = Some [] \<or> color_scheme s = Some ''Default''
           then None else color_scheme s))"
  using values_unset_as_absent [of s df] color_unset_as_absent [of s df]
    scheme_default_as_absent [of s df] chart_arguments_optional [of df s f ps]
  by blast

theorem sentinel_handling_witness:
  "\<not> is_set (color_column (sunburst_settings\<lparr>color_scheme := Some ''Viridis''\<rparr>))
   \<and> (\<exists>ps. chart_arguments sales_table (sunburst_settings\<lparr>color_scheme := Some ''Viridis''\<rparr>)
              = Inr (Sunburst, ps)
            \<and> arg_values ps = Some ''Sales'' \<and> arg_color ps = None
            \<and> arg_color_continuous_scale ps = Some ''Viridis'')"
proof -
  let ?s = "sunburst_settings\<lparr>color_scheme := Some ''Viridis''\<rparr>"
  obtain ps where ps: "chart_arguments sales_table ?s = Inr (Sunburst, ps)"
    by (simp add: chart_arguments_def truthy_def chart_types_def missing_cols_def
          sales_table_def sunburst_settings_def col_names_def add_values_def add_color_def)
  have unset: "\<not> is_set (color_column ?s)"
    by (simp add: is_set_def sunburst_settings_def)
  have "is_set (values_column ?s)" "values_column ?s = Some ''Sales''"
    "color_scheme ?s = Some ''Viridis''"
    by (simp_all add: is_set_def sunburst_settings_def)
  with unset sentinel_handling [of ?s sales_table Sunburst ps] ps
  have "arg_values ps = Some ''Sales'' \<and> arg_color ps = None
        \<and> arg_color_continuous_scale ps = Some ''Viridis''"
    by simp
  with unset ps show ?thesis by blast
qed

section \<open>Properties of cleaning\<close>

subsection \<open>The pandas operations never raise\<close>

lemma process_data_eq:
  "process_data p df =
     Inr (convert_loop (pandas p) (col_names (replace_inf (dropna_cols (dropna_rows df))))
            (replace_inf (dropna_cols (dropna_rows df))), [])"
  by (simp add: process_data_def process_data_with_def pandas_def)

subsection \<open>Selecting rows\<close>

lemma take_rows_map:
  "take_rows (map keep is) (map f is) = map f (filter keep is)"
  by (induction "is") (simp_all add: take_rows_def)

lemma take_rows_nth:
  assumes "length xs = n"
  shows "take_rows (map keep [0..<n]) xs = map (nth xs) (filter keep [0..<n])"
proof -
  have "xs = map (nth xs) [0..<n]" using assms map_nth [of xs] by simp
  then have "take_rows (map keep [0..<n]) xs = take_rows (map keep [0..<n]) (map (nth xs) [0..<n])"
    by simp
  then show ?thesis by (simp only: take_rows_map)
qed

lemma take_rows_subset: "set (take_rows m xs) \<subseteq> set xs"
  by (auto simp: take_rows_def dest: set_zip_leftD)

lemma take_rows_kept:
  "length xs = nrows df \<Longrightarrow> take_rows (keep_mask df) xs = map (nth xs) (kept_rows df)"
  by (simp add: keep_mask_def kept_rows_def take_rows_nth)

lemma kept_rows_bound: "i \<in> set (kept_rows df) \<Longrightarrow> i < nrows df \<and> \<not> row_all_na df i"
  by (simp add: kept_rows_def)

lemma filter_upt_nth:
  assumes "i < n" "P i"
  shows "length (filter P [0..<i]) < length (filter P [0..<n])"
    and "filter P [0..<n] ! length (filter P [0..<i]) = i"
proof -
  from assms(1) have "[0..<n] = [0..<i] @ i # [Suc i..<n]"
    by (metis less_eq_nat.simps(1) upt_add_eq_append upt_conv_Cons le_add_diff_inverse less_imp_le_nat)
  with assms(2) have f: "filter P [0..<n] = filter P [0..<i] @ i # filter P [Suc i..<n]"
    by simp
  show "length (filter P [0..<i]) < length (filter P [0..<n])"
    by (simp add: f)
  show "filter P [0..<n] ! length (filter P [0..<i]) = i"
    by (simp add: f nth_append)
qed


subsection \<open>Conversion of a column\<close>

lemma item_of_simps [simp]:
  "is_float_item (item_of p x) \<longleftrightarrow> integer_reading p x = None"
  "is_uint (item_of p x) \<longleftrightarrow> above_int64 p x"
  "is_sint (item_of p x) \<longleftrightarrow> negative_integer p x"
  "float_of (item_of p x) = float_reading p x"
  "int_value (item_of p x) = read_as p True x"
  by (simp_all add: item_of_def above_int64_def negative_integer_def read_as_def
        split: option.splits)

lemma read_as_False [simp]: "read_as p False x = float_reading p x"
  by (simp add: read_as_def split: option.splits)

lemma classify_parses: "parses p x \<Longrightarrow> classify p i x = Inr (item_of p x)"
  by (cases x) (auto simp: item_of_def INT64_MIN_def UINT64_MAX_def split: option.splits)

lemma classify_fails: "\<not> parses p x \<Longrightarrow> \<exists>e. classify p i x = Inl e"
  by (cases x) (auto simp: INT64_MIN_def UINT64_MAX_def split: option.splits)

lemma classify_all_parses:
  "list_all (parses p) xs \<Longrightarrow> classify_all p i xs = Inr (map (item_of p) xs)"
  by (induction xs arbitrary: i) (simp_all add: classify_parses)

lemma classify_all_fails:
  "\<not> list_all (parses p) xs \<Longrightarrow> \<exists>e. classify_all p i xs = Inl e"
proof (induction xs arbitrary: i)
  case Nil
  then show ?case by simp
next
  case (Cons x xs)
  show ?case
  proof (cases "parses p x")
    case False
    then obtain e where "classify p i x = Inl e" using classify_fails by blast
    then show ?thesis by simp
  next
    case True
    with Cons.prems have "\<not> list_all (parses p) xs" by simp
    then obtain e where "classify_all p (Suc i) xs = Inl e" using Cons.IH by blast
    with True show ?thesis by (simp add: classify_parses)
  qed
qed

lemma seen_float_items: "seen_float (map (item_of p) xs) \<longleftrightarrow> \<not> all_integers p xs"
  by (simp add: seen_float_def all_integers_def list_ex_iff list_all_iff)

lemma conflict_items:
  "check_uint64_conflict (map (item_of p) xs) \<longleftrightarrow> uint64_conflict p xs"
  by (simp add: check_uint64_conflict_def uint64_conflict_def seen_uint_def seen_null_def
        seen_sint_def list_ex_iff)

lemma values_items:
  "(if seen_float (map (item_of p) xs) then map float_of (map (item_of p) xs)
    else map int_value (map (item_of p) xs))
   = map (read_as p (all_integers p xs)) xs"
  by (simp add: seen_float_items)

lemma maybe_convert_numeric_parses:
  assumes "list_all (parses p) xs"
  shows "maybe_convert_numeric p xs =
     Inr (if uint64_conflict p xs then None else Some (map (read_as p (all_integers p xs)) xs))"
proof (cases "seen_float (map (item_of p) xs)")
  case True
  with values_items [of p xs]
  have "map float_of (map (item_of p) xs) = map (read_as p (all_integers p xs)) xs"
    by (simp only: if_True)
  with True have "maybe_convert_numeric p xs =
      (if uint64_conflict p xs then Inr None
       else Inr (Some (map (read_as p (all_integers p xs)) xs)))"
    by (simp only: maybe_convert_numeric_def classify_all_parses [OF assms] conflict_items
          sum.case if_True)
  then show ?thesis by (cases "uint64_conflict p xs") simp_all
next
  case False
  with values_items [of p xs]
  have "map int_value (map (item_of p) xs) = map (read_as p (all_integers p xs)) xs"
    by (simp only: if_False)
  with False have "maybe_convert_numeric p xs =
      (if uint64_conflict p xs then Inr None
       else Inr (Some (map (read_as p (all_integers p xs)) xs)))"
    by (simp only: maybe_convert_numeric_def classify_all_parses [OF assms] conflict_items
          sum.case if_False)
  then show ?thesis by (cases "uint64_conflict p xs") simp_all
qed

lemma maybe_convert_numeric_fails:
  "\<not> list_all (parses p) xs \<Longrightarrow> \<exists>e. maybe_convert_numeric p xs = Inl e"
  using classify_all_fails [of p xs 0] by (auto simp: maybe_convert_numeric_def)

lemma to_numeric_ignore_eq:
  "to_numeric_ignore p c =
     (if col_dtype c = Object \<and> converts p (col_cells c) then numeric_column p c else c)"
proof (cases "col_dtype c")
  case Numeric
  then show ?thesis by (simp add: to_numeric_ignore_def to_numeric_raise_def)
next
  case Object
  show ?thesis
  proof (cases "list_all (parses p) (col_cells c)")
    case True
    with Object show ?thesis
      by (simp add: to_numeric_ignore_def to_numeric_raise_def maybe_convert_numeric_parses
            converts_def numeric_column_def)
  next
    case False
    then obtain e where "maybe_convert_numeric p (col_cells c) = Inl e"
      using maybe_convert_numeric_fails by blast
    with Object False show ?thesis
      by (simp add: to_numeric_ignore_def to_numeric_raise_def converts_def)
  qed
qed

lemma to_numeric_ignore_name [simp]: "col_name (to_numeric_ignore p c) = col_name c"
  by (simp add: to_numeric_ignore_eq numeric_column_def)

lemma to_numeric_ignore_length [simp]:
  "length (col_cells (to_numeric_ignore p c)) = length (col_cells c)"
  by (simp add: to_numeric_ignore_eq numeric_column_def)

lemma convert1_name [simp]: "col_name (convert1 p ns c) = col_name c"
  by (simp add: convert1_def)

lemma convert1_length [simp]: "length (col_cells (convert1 p ns c)) = length (col_cells c)"
  by (simp add: convert1_def)

lemma to_numeric_ignore_dtype:
  "to_numeric_ignore p c = c \<or> col_dtype (to_numeric_ignore p c) = Numeric"
  by (simp add: to_numeric_ignore_eq numeric_column_def)

lemma convert1_idem [simp]: "convert1 p ns (convert1 p ns c) = convert1 p ns c"
proof (cases "count_list ns (col_name c) = 1 \<and> col_dtype c = Object")
  case True
  with to_numeric_ignore_dtype [of p c] show ?thesis
    by (auto simp: convert1_def)
next
  case False
  then have "convert1 p ns c = c" by (auto simp: convert1_def)
  then show ?thesis by simp
qed

lemma count_list_map_filter:
  "count_list (map f xs) y = length (filter (\<lambda>x. f x = y) xs)"
  by (induction xs) simp_all

lemma count_list_names:
  "count_list (col_names df) col = length (filter (\<lambda>c. col_name c = col) (df_columns df))"
  by (simp add: col_names_def count_list_map_filter)


subsection \<open>The conversion loop\<close>

lemma convert_step:
  "(case convert_column (pandas p) df col of Inl e \<Rightarrow> df | Inr df' \<Rightarrow> df') =
     df\<lparr>df_columns :=
          map (\<lambda>c. if col_name c = col then convert1 p (col_names df) c else c) (df_columns df)\<rparr>"
proof -
  let ?sel = "filter (\<lambda>c. col_name c = col) (df_columns df)"
  let ?f = "\<lambda>c. if col_name c = col then convert1 p (col_names df) c else c"
  have cnt: "count_list (col_names df) col = length ?sel" by (rule count_list_names)
  have same: "map ?f (df_columns df) = df_columns df \<Longrightarrow> ?thesis
      \<longleftrightarrow> (case convert_column (pandas p) df col of Inl e \<Rightarrow> df | Inr df' \<Rightarrow> df') = df"
    by simp
  consider (none) "?sel = []" | (one) c0 where "?sel = [c0]"
    | (many) c0 c1 cs where "?sel = c0 # c1 # cs"
    by (metis list.exhaust)
  then show ?thesis
  proof cases
    case none
    then have "\<forall>c \<in> set (df_columns df). col_name c \<noteq> col"
      by (simp add: filter_empty_conv)
    then have "map ?f (df_columns df) = df_columns df"
      by (simp add: map_idI)
    moreover from none have "convert_column (pandas p) df col = Inl (KeyError col)"
      by (simp add: convert_column_def getitem_def)
    ultimately show ?thesis by simp
  next
    case many
    then have "count_list (col_names df) col \<noteq> 1" using cnt by simp
    then have "map ?f (df_columns df) = df_columns df"
      by (simp add: map_idI convert1_def)
    moreover from many have "\<exists>e. convert_column (pandas p) df col = Inl e"
      by (simp add: convert_column_def getitem_def)
    ultimately show ?thesis by auto
  next
    case one
    then have one_count: "count_list (col_names df) col = 1" using cnt by simp
    have "c0 \<in> set ?sel" using one by simp
    then have c0: "c0 \<in> set (df_columns df)" "col_name c0 = col" by simp_all
    have only: "c = c0" if "c \<in> set (df_columns df)" "col_name c = col" for c
    proof -
      from that have "c \<in> set ?sel" by simp
      with one show ?thesis by simp
    qed
    have in_names: "col \<in> set (col_names df)"
      using c0 by (auto simp: col_names_def)
    show ?thesis
    proof (cases "col_dtype c0 = Object")
      case False
      then have "convert1 p (col_names df) c0 = c0" by (simp add: convert1_def)
      with only have "map ?f (df_columns df) = df_columns df"
        by (intro map_idI) auto
      moreover from one False have "convert_column (pandas p) df col = Inr df"
        by (simp add: convert_column_def getitem_def)
      ultimately show ?thesis by simp
    next
      case True
      with one have A: "convert_column (pandas p) df col
          = Inr (setitem df col (to_numeric_ignore p c0))"
        by (simp add: convert_column_def getitem_def pandas_def)
      have upd: "(to_numeric_ignore p c0)\<lparr>col_name := col\<rparr> = to_numeric_ignore p c0"
        using c0(2) by (metis column.surjective column.update_convs(1) to_numeric_ignore_name)
      have B: "setitem df col (to_numeric_ignore p c0) =
          df\<lparr>df_columns :=
               map (\<lambda>c. if col_name c = col then to_numeric_ignore p c0 else c) (df_columns df)\<rparr>"
        using in_names by (simp add: setitem_def upd)
      have C: "map (\<lambda>c. if col_name c = col then to_numeric_ignore p c0 else c) (df_columns df)
          = map ?f (df_columns df)"
      proof (rule map_cong [OF refl])
        fix c assume c: "c \<in> set (df_columns df)"
        show "(if col_name c = col then to_numeric_ignore p c0 else c) = ?f c"
        proof (cases "col_name c = col")
          case False
          then show ?thesis by simp
        next
          case eq: True
          with c have "c = c0" by (rule only)
          with True one_count c0(2) show ?thesis by (simp add: convert1_def)
        qed
      qed
      show ?thesis unfolding A B C by simp
    qed
  qed
qed


lemma col_names_map:
  "(\<And>c. col_name (f c) = col_name c) \<Longrightarrow> col_names (df\<lparr>df_columns := map f (df_columns df)\<rparr>) = col_names df"
  by (simp add: col_names_def)

lemma convert_loop_eq:
  "convert_loop (pandas p) ns df =
     df\<lparr>df_columns :=
          map (\<lambda>c. if col_name c \<in> set ns then convert1 p (col_names df) c else c) (df_columns df)\<rparr>"
proof (induction ns arbitrary: df)
  case Nil
  then show ?case by simp
next
  case (Cons col cols)
  let ?g = "\<lambda>c. if col_name c = col then convert1 p (col_names df) c else c"
  let ?df1 = "df\<lparr>df_columns := map ?g (df_columns df)\<rparr>"
  have names: "col_names ?df1 = col_names df"
    by (rule col_names_map) simp
  have "convert_loop (pandas p) (col # cols) df = convert_loop (pandas p) cols ?df1"
    by (simp only: convert_loop.simps convert_step)
  also have "\<dots> = ?df1\<lparr>df_columns :=
      map (\<lambda>c. if col_name c \<in> set cols then convert1 p (col_names df) c else c) (df_columns ?df1)\<rparr>"
    by (simp only: Cons.IH names)
  also have "\<dots> = df\<lparr>df_columns :=
      map (\<lambda>c. if col_name c \<in> set (col # cols) then convert1 p (col_names df) c else c) (df_columns df)\<rparr>"
  proof -
    have "map (\<lambda>c. if col_name c \<in> set cols then convert1 p (col_names df) c else c)
            (map ?g (df_columns df))
        = map (\<lambda>c. if col_name c \<in> set (col # cols) then convert1 p (col_names df) c else c)
            (df_columns df)"
      unfolding map_map
    proof (rule map_cong [OF refl])
      fix c
      show "((\<lambda>c. if col_name c \<in> set cols then convert1 p (col_names df) c else c) \<circ> ?g) c
          = (if col_name c \<in> set (col # cols) then convert1 p (col_names df) c else c)"
        by (cases "col_name c = col"; cases "col_name c \<in> set cols") simp_all
    qed
    then show ?thesis by simp
  qed
  finally show ?case .
qed

lemma convert_loop_all:
  "convert_loop (pandas p) (col_names df) df = convert_all p df"
proof -
  have "map (\<lambda>c. if col_name c \<in> set (col_names df) then convert1 p (col_names df) c else c) (df_columns df)
      = map (convert1 p (col_names df)) (df_columns df)"
    by (rule map_cong [OF refl]) (simp add: col_names_def)
  then show ?thesis by (simp add: convert_loop_eq convert_all_def)
qed

lemma process_data_stages:
  "process_data p df = Inr (convert_all p (replace_inf (dropna_cols (dropna_rows df))), [])"
  by (simp add: process_data_eq convert_loop_all)

subsection \<open>Exceptions during cleaning\<close>

lemma upt_1: "[0..<1] = [0]" "[0..<2] = [0, 1]" "[0..<3] = [0, 1, 2]"
  by (simp_all add: upt_rec)

lemma read_integer_examples:
  "read_integer ''1'' = Some (Finite 1, Some 1)" "read_integer ''2'' = Some (Finite 2, Some 2)"
  "read_integer ''3'' = Some (Finite 3, Some 3)" "read_integer ''x'' = None"
  "read_integer ''y'' = None" "read_integer ''-1'' = Some (Finite (- 1), Some (- 1))"
  "read_integer ''9223372036854775808''
     = Some (Finite 9223372036854775808, Some 9223372036854775808)"
  by (simp_all add: read_integer_def digit_of_def)

lemma decimal_examples:
  "decimal 0 = ''0''" "decimal (Suc 0) = ''1''" "decimal (Suc (Suc 0)) = ''2''"
  by (simp_all add: decimal.simps)

lemmas convert_defs =
  to_numeric_ignore_def to_numeric_raise_def maybe_convert_numeric_def
  check_uint64_conflict_def seen_float_def seen_null_def seen_sint_def seen_uint_def
  read_text_def at_position_def INT64_MIN_def INT64_MAX_def UINT64_MAX_def

lemmas reading_defs =
  read_text_def uint64_conflict_def above_int64_def negative_integer_def all_integers_def
  read_as_def converts_def numeric_column_def INT64_MIN_def INT64_MAX_def UINT64_MAX_def

lemmas eval_defs =
  dropna_rows_def dropna_cols_def replace_inf_def replace_inf_col_def keep_mask_def
  row_all_na_def col_all_na_def take_rows_def nrows_def col_names_def

text \<open>
  Claim C6, as stated, fails: a failure while a column is converted is dropped by
  the inner handler, and \<open>process_data\<close> returns the data frame with no diagnostic
  message. It happens with pandas as it is, in a data frame with two columns of the
  same name (\<open>df[col]\<close> is a data frame, which has no \<open>dtype\<close>), and on a table with
  unique names as soon as \<open>pd.to_numeric\<close> raises, here on the text \<open>x\<close>.
\<close>

theorem process_data_silent_failure_counterexample:
  "convert_column (pandas read_integer) twin_table ''a''
     = Inl (AttributeError (quoted ''DataFrame'' @ '' object has no attribute '' @ quoted ''dtype''))
   \<and> process_data read_integer twin_table = Inr (twin_table, [])
   \<and> convert_column (pandas_strict read_integer) text_table ''a''
     = Inl (ValueError (''Unable to parse string '' @ dquoted ''x'' @ '' at position 2''))
   \<and> process_data_with (pandas_strict read_integer) text_table =
       Inr (\<lparr>df_index = [0, 1, 2],
             df_columns =
               [\<lparr>col_name = ''a'', col_dtype = Object,
                 col_cells = [Str ''1'', Str ''2'', Str ''x'']\<rparr>,
                \<lparr>col_name = ''b'', col_dtype = Numeric,
                 col_cells = [Num (Finite 1), Num (Finite 2), Num (Finite 3)]\<rparr>]\<rparr>, [])"
proof -
  have "convert_column (pandas read_integer) twin_table ''a''
     = Inl (AttributeError (quoted ''DataFrame'' @ '' object has no attribute '' @ quoted ''dtype''))"
    by (simp add: convert_column_def getitem_def twin_table_def)
  moreover have "replace_inf (dropna_cols (dropna_rows twin_table)) = twin_table"
    by (simp add: eval_defs twin_table_def upt_1)
  moreover have "convert_all read_integer twin_table = twin_table"
    by (simp add: convert_all_def convert1_def twin_table_def col_names_def)
  moreover have "convert_column (pandas_strict read_integer) text_table ''a''
     = Inl (ValueError (''Unable to parse string '' @ dquoted ''x'' @ '' at position 2''))"
    by (simp add: pandas_strict_def pandas_def text_table_def convert_column_def getitem_def
          convert_defs read_integer_examples decimal_examples)
  moreover have "process_data_with (pandas_strict read_integer) text_table =
       Inr (\<lparr>df_index = [0, 1, 2],
             df_columns =
               [\<lparr>col_name = ''a'', col_dtype = Object,
                 col_cells = [Str ''1'', Str ''2'', Str ''x'']\<rparr>,
                \<lparr>col_name = ''b'', col_dtype = Numeric,
                 col_cells = [Num (Finite 1), Num (Finite 2), Num (Finite 3)]\<rparr>]\<rparr>, [])"
    by (simp add: process_data_with_def pandas_strict_def pandas_def eval_defs upt_1
          text_table_def convert_column_def getitem_def setitem_def convert_defs
          read_integer_examples decimal_examples)
  ultimately show ?thesis by (simp add: process_data_stages)
qed

text \<open>
  Claim C6, amended. \<open>process_data\<close> never raises to the caller, whatever the calls
  into pandas do. When the dropping of rows, the dropping of columns or the
  replacement of infinities raises, the exception is caught and the data frame as
  cleaned so far is returned with one diagnostic message. When these three succeed,
  the data frame after the conversion loop is returned with no message; an exception
  raised while one column is converted is dropped silently, and the loop goes on
  with the data frame unchanged.
\<close>

theorem process_data_never_raises:
  "(\<exists>df' msgs. process_data_with lib df = Inr (df', msgs) \<and>
      (msgs = [] \<and>
         (\<exists>df1 df2 df3. pd_dropna_rows lib df = Inr df1 \<and> pd_dropna_cols lib df1 = Inr df2
            \<and> pd_replace_inf lib df2 = Inr df3 \<and> df' = convert_loop lib (col_names df3) df3)
       \<or> (\<exists>e. msgs = [''Error processing data: '' @ str_exn e] \<and>
            (pd_dropna_rows lib df = Inl e \<and> df' = df
             \<or> (\<exists>df1. pd_dropna_rows lib df = Inr df1 \<and>
                   (pd_dropna_cols lib df1 = Inl e \<and> df' = df1
                    \<or> (\<exists>df2. pd_dropna_cols lib df1 = Inr df2
                          \<and> pd_replace_inf lib df2 = Inl e \<and> df' = df2)))))))
   \<and> (convert_column lib d col = Inl e' \<longrightarrow>
        convert_loop lib (col # cols) d = convert_loop lib cols d)"
proof
  show "convert_column lib d col = Inl e' \<longrightarrow>
        convert_loop lib (col # cols) d = convert_loop lib cols d"
    by simp
  show "\<exists>df' msgs. process_data_with lib df = Inr (df', msgs) \<and>
      (msgs = [] \<and>
         (\<exists>df1 df2 df3. pd_dropna_rows lib df = Inr df1 \<and> pd_dropna_cols lib df1 = Inr df2
            \<and> pd_replace_inf lib df2 = Inr df3 \<and> df' = convert_loop lib (col_names df3) df3)
       \<or> (\<exists>e. msgs = [''Error processing data: '' @ str_exn e] \<and>
            (pd_dropna_rows lib df = Inl e \<and> df' = df
             \<or> (\<exists>df1. pd_dropna_rows lib df = Inr df1 \<and>
                   (pd_dropna_cols lib df1 = Inl e \<and> df' = df1
                    \<or> (\<exists>df2. pd_dropna_cols lib df1 = Inr df2
                          \<and> pd_replace_inf lib df2 = Inl e \<and> df' = df2))))))"
  proof (cases "pd_dropna_rows lib df")
    case (Inl e)
    then show ?thesis by (simp add: process_data_with_def report_def)
  next
    case r1: (Inr df1)
    show ?thesis
    proof (cases "pd_dropna_cols lib df1")
      case (Inl e)
      with r1 show ?thesis by (simp add: process_data_with_def report_def)
    next
      case r2: (Inr df2)
      show ?thesis
      proof (cases "pd_replace_inf lib df2")
        case (Inl e)
        with r1 r2 show ?thesis by (simp add: process_data_with_def report_def)
      next
        case (Inr df3)
        with r1 r2 show ?thesis by (simp add: process_data_with_def report_def)
      qed
    qed
  qed
qed

theorem process_data_never_raises_witness:
  "process_data_with failing_library sales_table
     = Inr (sales_table, [''Error processing data: replace failed''])
   \<and> convert_loop failing_library [''a''] twin_table = twin_table"
proof -
  have rows: "dropna_rows sales_table = sales_table"
    by (simp add: eval_defs sales_table_def upt_1)
  have cols: "dropna_cols sales_table = sales_table"
    by (simp add: eval_defs sales_table_def)
  have 1: "pd_dropna_rows failing_library sales_table = Inr sales_table"
    by (simp add: failing_library_def pandas_def rows)
  have 2: "pd_dropna_cols failing_library sales_table = Inr sales_table"
    by (simp add: failing_library_def pandas_def cols)
  have 3: "pd_replace_inf failing_library sales_table = Inl (TypeError ''replace failed'')"
    by (simp add: failing_library_def)
  have 4: "convert_column failing_library twin_table ''a''
     = Inl (AttributeError (quoted ''DataFrame'' @ '' object has no attribute '' @ quoted ''dtype''))"
    by (simp add: convert_column_def getitem_def twin_table_def)
  from process_data_never_raises
         [of failing_library sales_table twin_table "''a''"
             "AttributeError (quoted ''DataFrame'' @ '' object has no attribute '' @ quoted ''dtype'')" "[]"]
  show ?thesis using 1 2 3 4 by auto
qed

subsection \<open>Dropping rows and columns\<close>

lemma rectangularD:
  "rectangular df \<Longrightarrow> c \<in> set (df_columns df) \<Longrightarrow> length (col_cells c) = nrows df"
  by (simp add: rectangular_def list_all_iff)

lemma dropna_rows_eq:
  assumes "rectangular df"
  shows "dropna_rows df =
     \<lparr>df_index = map (nth (df_index df)) (kept_rows df),
      df_columns = map (select_rows (kept_rows df)) (df_columns df)\<rparr>"
proof -
  have "take_rows (keep_mask df) (df_index df) = map (nth (df_index df)) (kept_rows df)"
    by (rule take_rows_kept) (simp add: nrows_def)
  moreover have "map (\<lambda>c. c\<lparr>col_cells := take_rows (keep_mask df) (col_cells c)\<rparr>) (df_columns df)
      = map (select_rows (kept_rows df)) (df_columns df)"
    by (rule map_cong [OF refl])
       (simp add: select_rows_def take_rows_kept rectangularD [OF assms])
  ultimately show ?thesis by (simp add: dropna_rows_def)
qed

lemma row_all_na_iff:
  "row_all_na df i \<longleftrightarrow> (\<forall>c \<in> set (df_columns df). isna (col_cells c ! i))"
  by (simp add: row_all_na_def list_all_iff)

lemma col_all_na_iff: "col_all_na c \<longleftrightarrow> (\<forall>x \<in> set (col_cells c). isna x)"
  by (simp add: col_all_na_def list_all_iff)

lemma col_all_na_select:
  assumes "rectangular df" "c \<in> set (df_columns df)"
  shows "col_all_na (select_rows (kept_rows df) c) \<longleftrightarrow> col_all_na c"
proof
  assume "col_all_na c"
  then have "\<forall>i < length (col_cells c). isna (col_cells c ! i)"
    by (simp add: col_all_na_iff)
  moreover have "\<forall>i \<in> set (kept_rows df). i < length (col_cells c)"
    using assms by (simp add: rectangularD kept_rows_def)
  ultimately show "col_all_na (select_rows (kept_rows df) c)"
    by (simp add: col_all_na_iff select_rows_def)
next
  assume sel: "col_all_na (select_rows (kept_rows df) c)"
  show "col_all_na c"
    unfolding col_all_na_iff
  proof
    fix x assume "x \<in> set (col_cells c)"
    then obtain i where i: "i < length (col_cells c)" "x = col_cells c ! i"
      by (auto simp: in_set_conv_nth)
    show "isna x"
    proof (rule ccontr)
      assume "\<not> isna x"
      with i assms(2) have "\<not> row_all_na df i" by (auto simp: row_all_na_iff)
      moreover from i assms have "i < nrows df" by (simp add: rectangularD)
      ultimately have "i \<in> set (kept_rows df)" by (simp add: kept_rows_def)
      with sel have "isna (col_cells c ! i)"
        by (simp add: col_all_na_iff select_rows_def)
      with i \<open>\<not> isna x\<close> show False by simp
    qed
  qed
qed

lemma dropna_eq:
  assumes "rectangular df"
  shows "dropna_cols (dropna_rows df) =
     \<lparr>df_index = map (nth (df_index df)) (kept_rows df),
      df_columns = map (select_rows (kept_rows df))
                     (filter (\<lambda>c. \<not> col_all_na c) (df_columns df))\<rparr>"
proof -
  have "filter (\<lambda>c. \<not> col_all_na c) (map (select_rows (kept_rows df)) (df_columns df))
      = map (select_rows (kept_rows df)) (filter (\<lambda>c. \<not> col_all_na c) (df_columns df))"
    unfolding filter_map
    by (rule arg_cong [where f = "map _"], rule filter_cong [OF refl])
       (simp add: col_all_na_select [OF assms])
  then show ?thesis
    by (simp add: dropna_cols_def dropna_rows_eq [OF assms])
qed

lemma replace_inf_col_name [simp]: "col_name (replace_inf_col c) = col_name c"
  by (simp add: replace_inf_col_def)

lemma replace_inf_col_length [simp]:
  "length (col_cells (replace_inf_col c)) = length (col_cells c)"
  by (simp add: replace_inf_col_def)

lemma select_rows_name [simp]: "col_name (select_rows is c) = col_name c"
  by (simp add: select_rows_def)

lemma select_rows_length [simp]: "length (col_cells (select_rows is c)) = length is"
  by (simp add: select_rows_def)

lemma replace_inf_index [simp]: "df_index (replace_inf df) = df_index df"
  by (simp add: replace_inf_def)

lemma replace_inf_names [simp]: "col_names (replace_inf df) = col_names df"
  by (simp add: replace_inf_def col_names_def)

lemma convert_all_index [simp]: "df_index (convert_all p df) = df_index df"
  by (simp add: convert_all_def)

lemma convert_all_names [simp]: "col_names (convert_all p df) = col_names df"
  by (simp add: convert_all_def col_names_def)

lemma replace_inf_col_cell:
  assumes "j < length (col_cells c)"
  shows "col_cells (replace_inf_col c) ! j
           = (if isinf (col_cells c ! j) then Missing else col_cells c ! j)"
proof (cases "list_ex isinf (col_cells c)")
  case True
  with assms show ?thesis by (simp add: replace_inf_col_def)
next
  case False
  with assms have "\<not> isinf (col_cells c ! j)" by (auto simp: list_ex_iff)
  with False show ?thesis by (simp add: replace_inf_col_def)
qed

lemma convert1_cell:
  assumes "j < length (col_cells c)"
  shows "col_cells (convert1 p ns c) ! j = col_cells c ! j
         \<or> (\<exists>ints. col_cells (convert1 p ns c) ! j = Num (read_as p ints (col_cells c ! j)))"
proof (cases "convert1 p ns c = c")
  case True
  then show ?thesis by simp
next
  case False
  then have "convert1 p ns c = numeric_column p c"
    by (auto simp: convert1_def to_numeric_ignore_eq split: if_splits)
  with assms show ?thesis by (auto simp: numeric_column_def)
qed

text \<open>
  Claim C5. For every (rectangular) table, \<open>process_data\<close> removes exactly the rows in
  which every cell is missing and the columns in which every cell is missing. The
  result has, in order, the labels of the other rows and the names of the other
  columns, and one cell for each of these rows in each of these columns. That cell
  comes from the cell of the given table in that row and column: it is the missing
  marker where that was an infinity, the same number or missing marker where it was
  one, and for a text the text itself or the number read from it. In full, the
  result is what the replacement of infinities and the conversion loop make of the
  given table restricted to these rows and columns.
\<close>

theorem process_data_drops_all_missing:
  assumes "rectangular df"
  defines "rows \<equiv> filter (\<lambda>i. \<not> (\<forall>c \<in> set (df_columns df). isna (col_cells c ! i))) [0..<nrows df]"
    and "cols \<equiv> filter (\<lambda>c. \<not> (\<forall>x \<in> set (col_cells c). isna x)) (df_columns df)"
  shows "\<exists>df'. process_data p df = Inr (df', [])
     \<and> df_index df' = map (nth (df_index df)) rows
     \<and> col_names df' = map col_name cols
     \<and> length (df_columns df') = length cols
     \<and> (\<forall>k < length cols. length (col_cells (df_columns df' ! k)) = length rows)
     \<and> (\<forall>k < length cols. \<forall>j < length rows.
           (isinf (col_cells (cols ! k) ! (rows ! j)) \<longrightarrow>
              col_cells (df_columns df' ! k) ! j = Missing)
         \<and> (\<not> isinf (col_cells (cols ! k) ! (rows ! j))
              \<and> \<not> is_text (col_cells (cols ! k) ! (rows ! j)) \<longrightarrow>
              col_cells (df_columns df' ! k) ! j = col_cells (cols ! k) ! (rows ! j))
         \<and> (is_text (col_cells (cols ! k) ! (rows ! j)) \<longrightarrow>
              col_cells (df_columns df' ! k) ! j = col_cells (cols ! k) ! (rows ! j)
              \<or> (\<exists>ints. col_cells (df_columns df' ! k) ! j
                          = Num (read_as p ints (col_cells (cols ! k) ! (rows ! j))))))
     \<and> df' =
         convert_loop (pandas p)
           (col_names (replace_inf
              \<lparr>df_index = map (nth (df_index df)) rows,
               df_columns = map (\<lambda>c. c\<lparr>col_cells := map (nth (col_cells c)) rows\<rparr>) cols\<rparr>))
           (replace_inf
              \<lparr>df_index = map (nth (df_index df)) rows,
               df_columns = map (\<lambda>c. c\<lparr>col_cells := map (nth (col_cells c)) rows\<rparr>) cols\<rparr>)"
proof -
  let ?d = "dropna_cols (dropna_rows df)"
  let ?r = "convert_all p (replace_inf ?d)"
  let ?N = "col_names (replace_inf ?d)"
  have rows: "rows = kept_rows df"
    by (simp add: rows_def kept_rows_def row_all_na_iff)
  have cols: "cols = filter (\<lambda>c. \<not> col_all_na c) (df_columns df)"
    by (simp add: cols_def col_all_na_iff)
  have d: "?d = \<lparr>df_index = map (nth (df_index df)) rows,
      df_columns = map (select_rows rows) cols\<rparr>"
    by (simp add: dropna_eq [OF assms(1)] rows cols)
  have d': "?d = \<lparr>df_index = map (nth (df_index df)) rows,
      df_columns = map (\<lambda>c. c\<lparr>col_cells := map (nth (col_cells c)) rows\<rparr>) cols\<rparr>"
    unfolding d by (simp add: select_rows_def [abs_def])
  have res: "process_data p df = Inr (?r, [])" by (rule process_data_stages)
  have loop: "?r = convert_loop (pandas p) ?N (replace_inf ?d)"
    by (rule convert_loop_all [symmetric])
  have "df_index ?r = df_index ?d" by simp
  then have i: "df_index ?r = map (nth (df_index df)) rows" by (simp add: d)
  have "col_names ?r = col_names ?d" by simp
  then have n: "col_names ?r = map col_name cols"
    by (simp add: d col_names_def comp_def)
  have c: "df_columns ?r
      = map (\<lambda>c. convert1 p ?N (replace_inf_col (select_rows rows c))) cols"
  proof -
    have "df_columns ?r = map (convert1 p ?N) (df_columns (replace_inf ?d))"
      by (simp add: convert_all_def)
    also have "df_columns (replace_inf ?d) = map replace_inf_col (map (select_rows rows) cols)"
      by (simp add: replace_inf_def d)
    finally show ?thesis by (simp add: comp_def)
  qed
  then have len: "length (df_columns ?r) = length cols" by simp
  have clen: "length (col_cells (df_columns ?r ! k)) = length rows" if "k < length cols" for k
    using that by (simp add: c)
  have cell: "(isinf (col_cells (cols ! k) ! (rows ! j)) \<longrightarrow>
              col_cells (df_columns ?r ! k) ! j = Missing)
         \<and> (\<not> isinf (col_cells (cols ! k) ! (rows ! j))
              \<and> \<not> is_text (col_cells (cols ! k) ! (rows ! j)) \<longrightarrow>
              col_cells (df_columns ?r ! k) ! j = col_cells (cols ! k) ! (rows ! j))
         \<and> (is_text (col_cells (cols ! k) ! (rows ! j)) \<longrightarrow>
              col_cells (df_columns ?r ! k) ! j = col_cells (cols ! k) ! (rows ! j)
              \<or> (\<exists>ints. col_cells (df_columns ?r ! k) ! j
                          = Num (read_as p ints (col_cells (cols ! k) ! (rows ! j)))))"
    if k: "k < length cols" and j: "j < length rows" for k j
  proof -
    let ?x = "col_cells (cols ! k) ! (rows ! j)"
    let ?c1 = "select_rows rows (cols ! k)"
    let ?c2 = "replace_inf_col ?c1"
    let ?y = "col_cells (convert1 p ?N ?c2) ! j"
    have y: "col_cells (df_columns ?r ! k) ! j = ?y" using k by (simp add: c)
    have x1: "col_cells ?c1 ! j = ?x" using j by (simp add: select_rows_def)
    have j1: "j < length (col_cells ?c1)" using j by simp
    have x2: "col_cells ?c2 ! j = (if isinf ?x then Missing else ?x)"
      using replace_inf_col_cell [OF j1] x1 by simp
    have j2: "j < length (col_cells ?c2)" using j by simp
    from convert1_cell [OF j2, of p ?N]
    have alt: "?y = col_cells ?c2 ! j \<or> (\<exists>ints. ?y = Num (read_as p ints (col_cells ?c2 ! j)))" .
    show ?thesis
    proof (cases ?x)
      case (Str s)
      with x2 have "col_cells ?c2 ! j = ?x" by simp
      with alt Str show ?thesis unfolding y by simp
    next
      case (Num v)
      then have "col_cells ?c2 ! j = (if isinf ?x then Missing else Num v)"
        using x2 by simp
      with alt have "?y = (if isinf ?x then Missing else Num v)"
        by (auto simp: read_as_def)
      with Num show ?thesis unfolding y by simp
    qed
  qed
  from res i n len clen cell loop show ?thesis
    unfolding d' by blast
qed

theorem process_data_drops_all_missing_witness:
  "rectangular gaps_table
   \<and> (\<exists>df'. process_data read_integer gaps_table = Inr (df', [])
         \<and> df_index df' = [0, 2] \<and> col_names df' = [''a'', ''c'']
         \<and> df_columns df' =
             [\<lparr>col_name = ''a'', col_dtype = Object, col_cells = [Str ''x'', Str ''y'']\<rparr>,
              \<lparr>col_name = ''c'', col_dtype = Numeric,
               col_cells = [Num (Finite 1), Num (Finite 2)]\<rparr>])"
proof -
  have r: "rectangular gaps_table"
    by (simp add: rectangular_def gaps_table_def nrows_def)
  have first: "process_data read_integer gaps_table =
       Inr (\<lparr>df_index = [0, 2],
             df_columns =
               [\<lparr>col_name = ''a'', col_dtype = Object, col_cells = [Str ''x'', Str ''y'']\<rparr>,
                \<lparr>col_name = ''c'', col_dtype = Numeric,
                 col_cells = [Num (Finite 1), Num (Finite 2)]\<rparr>]\<rparr>, [])"
    by (simp add: process_data_stages eval_defs upt_1 gaps_table_def convert_all_def convert1_def
        to_numeric_ignore_eq reading_defs read_integer_examples)
  from process_data_drops_all_missing [OF r, of read_integer]
  obtain df' where "process_data read_integer gaps_table = Inr (df', [])"
    and "df_index df' = [0, 2]" and "col_names df' = [''a'', ''c'']"
    by (auto simp: gaps_table_def nrows_def upt_1)
  with first r show ?thesis by auto
qed

subsection \<open>Rows of infinities\<close>

lemma isinf_not_isna: "isinf x \<Longrightarrow> \<not> isna x"
  by (cases x rule: isinf.cases) simp_all

lemma replace_inf_col_nth:
  assumes "j < length (col_cells c)" "isinf (col_cells c ! j)"
  shows "col_cells (replace_inf_col c) ! j = Missing"
proof -
  from assms have "list_ex isinf (col_cells c)"
    by (auto simp: list_ex_iff)
  with assms show ?thesis by (simp add: replace_inf_col_def)
qed

lemma read_as_Num [simp]: "read_as p ints (Num v) = v"
  by (simp add: read_as_def)

lemma to_numeric_ignore_nth:
  assumes "j < length (col_cells c)" "col_cells c ! j = Num v"
  shows "col_cells (to_numeric_ignore p c) ! j = Num v"
  using assms by (simp add: to_numeric_ignore_eq numeric_column_def)

lemma convert1_nth:
  "j < length (col_cells c) \<Longrightarrow> col_cells c ! j = Num v \<Longrightarrow>
     col_cells (convert1 p ns c) ! j = Num v"
  by (simp add: convert1_def to_numeric_ignore_nth)

text \<open>
  Claim C10. In a (rectangular) table with at least one column, a row whose cells
  are all infinities is not removed by one call of \<open>process_data\<close>: the rows and
  columns that are all missing are dropped before the infinities are replaced, so
  the row comes back, after the kept rows that preceded it, with its label, and
  every one of its cells is missing. No column is removed either.
\<close>

theorem process_data_keeps_infinite_row:
  assumes "rectangular df" and "df_columns df \<noteq> []" and "i < nrows df"
    and "\<forall>c \<in> set (df_columns df). isinf (col_cells c ! i)"
  defines "j \<equiv> length (filter (\<lambda>k. \<not> row_all_na df k) [0..<i])"
  shows "\<exists>df'. process_data p df = Inr (df', [])
     \<and> j < nrows df'
     \<and> df_index df' ! j = df_index df ! i
     \<and> col_names df' = col_names df
     \<and> (\<forall>c \<in> set (df_columns df'). j < length (col_cells c) \<and> col_cells c ! j = Missing)"
proof -
  let ?kept = "kept_rows df"
  let ?d = "dropna_cols (dropna_rows df)"
  let ?r = "convert_all p (replace_inf ?d)"
  from assms(2) obtain c0 where "c0 \<in> set (df_columns df)" by (cases "df_columns df") auto
  with assms(4) have keep: "\<not> row_all_na df i"
    by (auto simp: row_all_na_iff dest: isinf_not_isna)
  from filter_upt_nth [OF assms(3), of "\<lambda>k. \<not> row_all_na df k", OF keep]
  have j: "j < length ?kept" "?kept ! j = i"
    by (simp_all add: j_def kept_rows_def)
  have not_na: "\<not> col_all_na c" if "c \<in> set (df_columns df)" for c
  proof -
    from that assms have "i < length (col_cells c)" "isinf (col_cells c ! i)"
      by (simp_all add: rectangularD)
    then have "col_cells c ! i \<in> set (col_cells c)" "\<not> isna (col_cells c ! i)"
      by (simp_all add: isinf_not_isna)
    then show ?thesis unfolding col_all_na_iff by blast
  qed
  then have "filter (\<lambda>c. \<not> col_all_na c) (df_columns df) = df_columns df"
    by simp
  then have d: "?d = \<lparr>df_index = map (nth (df_index df)) ?kept,
      df_columns = map (select_rows ?kept) (df_columns df)\<rparr>"
    by (simp add: dropna_eq [OF assms(1)])
  have idx: "df_index ?r = map (nth (df_index df)) ?kept"
    by (simp add: d)
  have "col_names ?d = col_names df"
    by (simp add: d col_names_def comp_def)
  moreover have "col_names ?r = col_names ?d" by simp
  ultimately have names: "col_names ?r = col_names df" by simp
  have cols: "df_columns ?r =
      map (\<lambda>c. convert1 p (col_names df) (replace_inf_col (select_rows ?kept c))) (df_columns df)"
    by (simp add: convert_all_def replace_inf_def d col_names_def comp_def)
  have cell: "j < length (col_cells c') \<and> col_cells c' ! j = Missing"
    if "c' \<in> set (df_columns ?r)" for c'
  proof -
    from that cols obtain c where c: "c \<in> set (df_columns df)"
      and c': "c' = convert1 p (col_names df) (replace_inf_col (select_rows ?kept c))"
      by auto
    have "col_cells (select_rows ?kept c) ! j = col_cells c ! i"
      using j by (simp add: select_rows_def)
    with c assms(4) have "isinf (col_cells (select_rows ?kept c) ! j)" by simp
    with j have "col_cells (replace_inf_col (select_rows ?kept c)) ! j = Missing"
      by (intro replace_inf_col_nth) simp_all
    with j show ?thesis
      unfolding c' by (simp add: convert1_nth)
  qed
  have "j < nrows ?r" using j idx by (simp add: nrows_def)
  moreover have "df_index ?r ! j = df_index df ! i" using j idx by simp
  ultimately show ?thesis
    using names cell by (simp add: process_data_stages)
qed

theorem process_data_keeps_infinite_row_witness:
  "rectangular inf_table
   \<and> list_all (\<lambda>c. isinf (col_cells c ! 1)) (df_columns inf_table)
   \<and> (\<exists>df'. process_data read_integer inf_table = Inr (df', [])
         \<and> 1 < nrows df' \<and> df_index df' ! 1 = 1 \<and> col_names df' = [''a'', ''b'']
         \<and> (\<forall>c \<in> set (df_columns df'). col_cells c ! 1 = Missing))"
proof -
  have r: "rectangular inf_table"
    by (simp add: rectangular_def inf_table_def nrows_def)
  have ne: "df_columns inf_table \<noteq> []" by (simp add: inf_table_def)
  have i: "1 < nrows inf_table" by (simp add: inf_table_def nrows_def)
  have a: "\<forall>c \<in> set (df_columns inf_table). isinf (col_cells c ! 1)"
    by (simp add: inf_table_def)
  have j: "length (filter (\<lambda>k. \<not> row_all_na inf_table k) [0..<1]) = 1"
    by (simp add: upt_1 row_all_na_def inf_table_def)
  from process_data_keeps_infinite_row [OF r ne i a, of read_integer]
  obtain df' where "process_data read_integer inf_table = Inr (df', [])"
    "1 < nrows df'" "df_index df' ! 1 = df_index inf_table ! 1"
    "col_names df' = col_names inf_table"
    "\<forall>c \<in> set (df_columns df'). col_cells c ! 1 = Missing"
    unfolding j by blast
  then have "process_data read_integer inf_table = Inr (df', [])
         \<and> 1 < nrows df' \<and> df_index df' ! 1 = 1 \<and> col_names df' = [''a'', ''b'']
         \<and> (\<forall>c \<in> set (df_columns df'). col_cells c ! 1 = Missing)"
    by (simp add: inf_table_def col_names_def)
  moreover from a have "list_all (\<lambda>c. isinf (col_cells c ! 1)) (df_columns inf_table)"
    by (simp add: list_all_iff)
  ultimately show ?thesis using r by blast
qed

subsection \<open>Numeric coercion\<close>

lemma select_rows_all:
  "length (col_cells c) = n \<Longrightarrow> select_rows [0..<n] c = c"
  by (auto simp: select_rows_def map_nth)

lemma filter_by_key_distinct:
  "distinct (map g xs) \<Longrightarrow> c \<in> set xs \<Longrightarrow> filter (\<lambda>x. g x = g c) xs = [c]"
proof (induction xs)
  case Nil
  then show ?case by simp
next
  case (Cons x xs)
  show ?case
  proof (cases "x = c")
    case True
    with Cons.prems have "g c \<notin> g ` set xs" by simp
    then have "\<forall>y \<in> set xs. g y \<noteq> g c" by (metis imageI)
    then have "filter (\<lambda>x. g x = g c) xs = []" by (simp add: filter_empty_conv)
    with True show ?thesis by simp
  next
    case False
    with Cons.prems have "c \<in> set xs" "g x \<noteq> g c" by auto
    with Cons show ?thesis by simp
  qed
qed

lemma is_text_not_isna: "is_text x \<Longrightarrow> \<not> isna x"
  by (cases x) simp_all

lemma is_text_not_isinf: "is_text x \<Longrightarrow> \<not> isinf x"
  by (cases x) simp_all

text \<open>
  Claim C1, as stated, fails. In column \<open>c\<close> of \<open>uint_table\<close> every cell parses as a
  number: the same two texts are converted in the columns \<open>a\<close> and \<open>b\<close> of the same
  call. But an integer above the int64 range and a negative integer fit no 64-bit
  integer type together, and pandas returns the column as it was given: \<open>c\<close> stays a
  column of texts.
\<close>

theorem numeric_coercion_counterexample:
  "list_all (parses read_integer) [Str ''9223372036854775808'', Str ''-1'']
   \<and> process_data read_integer uint_table =
       Inr (\<lparr>df_index = [0, 1],
             df_columns =
               [\<lparr>col_name = ''a'', col_dtype = Numeric,
                 col_cells = [Num (Finite 9223372036854775808), Num (Finite 1)]\<rparr>,
                \<lparr>col_name = ''b'', col_dtype = Numeric,
                 col_cells = [Num (Finite (- 1)), Num (Finite 1)]\<rparr>,
                \<lparr>col_name = ''c'', col_dtype = Object,
                 col_cells = [Str ''9223372036854775808'', Str ''-1'']\<rparr>]\<rparr>, [])"
proof -
  have "replace_inf (dropna_cols (dropna_rows uint_table)) = uint_table"
    by (simp add: eval_defs uint_table_def upt_1)
  then show ?thesis
    by (simp add: process_data_stages convert_all_def convert1_def col_names_def
          to_numeric_ignore_eq uint_table_def reading_defs read_integer_examples)
qed

text \<open>
  Claim C1, amended. Numeric coercion is all-or-nothing per column. In a table of the
  data model (rectangular, columns typed, names unique), take a column that has
  cells, all of them texts. In the result of \<open>process_data\<close> the column of that name
  is either a column of numbers, one for each text, or the very column of the
  input, texts and dtype unchanged. It is the column of numbers when every text
  parses as a number and the texts do not conflict (no integer above the int64
  range beside a negative integer or a text read as missing): then every cell is
  the integer of its text when all texts are integer literals, and the float read
  from its text otherwise. It is unchanged when a single text does not parse, and
  also when the texts conflict.
\<close>

theorem numeric_coercion_all_or_nothing:
  assumes "rectangular df" and "well_typed df" and "unique_names df"
    and "c \<in> set (df_columns df)" and "col_cells c \<noteq> []"
    and "\<forall>x \<in> set (col_cells c). is_text x"
  shows "\<exists>df'. process_data p df = Inr (df', [])
     \<and> filter (\<lambda>x. col_name x = col_name c) (df_columns df') =
         [if list_all (parses p) (col_cells c) \<and> \<not> uint64_conflict p (col_cells c)
          then c\<lparr>col_dtype := Numeric,
                 col_cells :=
                   map (\<lambda>x. Num (read_as p (all_integers p (col_cells c)) x)) (col_cells c)\<rparr>
          else c]"
proof -
  let ?d = "dropna_cols (dropna_rows df)"
  let ?r = "convert_all p (replace_inf ?d)"
  let ?keep = "filter (\<lambda>c. \<not> col_all_na c) (df_columns df)"
  have len: "length (col_cells c) = nrows df"
    using assms(1,4) by (rule rectangularD)
  have "\<not> row_all_na df i" if "i < nrows df" for i
  proof -
    from that len have "col_cells c ! i \<in> set (col_cells c)" by simp
    with assms(6) have "\<not> isna (col_cells c ! i)" by (simp add: is_text_not_isna)
    with assms(4) show ?thesis by (auto simp: row_all_na_iff)
  qed
  then have kept: "kept_rows df = [0..<nrows df]"
    by (simp add: kept_rows_def)
  have "map (select_rows [0..<nrows df]) ?keep = ?keep"
    by (rule map_idI) (simp add: select_rows_all rectangularD [OF assms(1)])
  then have d: "?d = \<lparr>df_index = df_index df, df_columns = ?keep\<rparr>"
    by (simp add: dropna_eq [OF assms(1)] kept nrows_def map_nth)
  from assms(5) obtain x where x: "x \<in> set (col_cells c)" by (cases "col_cells c") auto
  with assms(6) have "is_text x" by simp
  with x have not_na: "\<not> col_all_na c"
    by (auto simp: col_all_na_iff dest: is_text_not_isna)
  have obj: "col_dtype c = Object"
  proof (rule ccontr)
    assume "col_dtype c \<noteq> Object"
    then have "col_dtype c = Numeric" by (cases "col_dtype c") simp_all
    with assms(2,4) have "\<not> list_ex is_text (col_cells c)"
      by (simp add: well_typed_def list_all_iff)
    with x \<open>is_text x\<close> show False by (simp add: list_ex_iff)
  qed
  have "\<not> list_ex isinf (col_cells c)"
    using assms(6) by (auto simp: list_ex_iff dest: is_text_not_isinf)
  then have repl: "replace_inf_col c = c" by (simp add: replace_inf_col_def)
  have dist: "distinct (map col_name ?keep)"
    using assms(3) by (simp add: unique_names_def col_names_def distinct_map_filter)
  have c_keep: "c \<in> set ?keep" using assms(4) not_na by simp
  have names: "col_names ?d = map col_name ?keep"
    by (simp add: d col_names_def)
  have cols: "df_columns ?r =
      map (\<lambda>c. convert1 p (map col_name ?keep) (replace_inf_col c)) ?keep"
  proof -
    have "df_columns ?r = map (convert1 p (col_names (replace_inf ?d))) (df_columns (replace_inf ?d))"
      by (simp add: convert_all_def)
    also have "df_columns (replace_inf ?d) = map replace_inf_col ?keep"
      by (simp add: replace_inf_def d)
    finally show ?thesis by (simp add: names comp_def)
  qed
  have only: "filter (\<lambda>x. col_name x = col_name c) ?keep = [c]"
    using dist c_keep by (rule filter_by_key_distinct)
  then have "count_list (map col_name ?keep) (col_name c) = 1"
    by (simp only: count_list_map_filter) simp
  with obj repl have conv: "convert1 p (map col_name ?keep) (replace_inf_col c) = to_numeric_ignore p c"
    by (simp add: convert1_def)
  have "filter (\<lambda>x. col_name x = col_name c) (df_columns ?r)
      = map (\<lambda>c. convert1 p (map col_name ?keep) (replace_inf_col c))
          (filter (\<lambda>x. col_name x = col_name c) ?keep)"
    by (simp add: cols filter_map comp_def)
  also note only
  finally have "filter (\<lambda>x. col_name x = col_name c) (df_columns ?r) = [to_numeric_ignore p c]"
    by (simp add: conv)
  with obj show ?thesis
    by (simp add: process_data_stages to_numeric_ignore_eq converts_def numeric_column_def)
qed


theorem numeric_coercion_all_or_nothing_witness:
  "rectangular text_table \<and> well_typed text_table \<and> unique_names text_table
   \<and> (\<exists>df'. process_data read_integer text_table = Inr (df', [])
         \<and> filter (\<lambda>x. col_name x = ''a'') (df_columns df') =
             [\<lparr>col_name = ''a'', col_dtype = Object,
               col_cells = [Str ''1'', Str ''2'', Str ''x'']\<rparr>]
         \<and> filter (\<lambda>x. col_name x = ''b'') (df_columns df') =
             [\<lparr>col_name = ''b'', col_dtype = Numeric,
               col_cells = [Num (Finite 1), Num (Finite 2), Num (Finite 3)]\<rparr>])"
proof -
  let ?a = "\<lparr>col_name = ''a'', col_dtype = Object, col_cells = [Str ''1'', Str ''2'', Str ''x'']\<rparr>"
  let ?b = "\<lparr>col_name = ''b'', col_dtype = Object, col_cells = [Str ''1'', Str ''2'', Str ''3'']\<rparr>"
  have r: "rectangular text_table"
    by (simp add: rectangular_def text_table_def nrows_def)
  have w: "well_typed text_table"
    by (simp add: well_typed_def text_table_def)
  have u: "unique_names text_table"
    by (simp add: unique_names_def text_table_def col_names_def)
  have a: "?a \<in> set (df_columns text_table)" "col_cells ?a \<noteq> []"
    "\<forall>x \<in> set (col_cells ?a). is_text x"
    by (simp_all add: text_table_def)
  have b: "?b \<in> set (df_columns text_table)" "col_cells ?b \<noteq> []"
    "\<forall>x \<in> set (col_cells ?b). is_text x"
    by (simp_all add: text_table_def)
  from numeric_coercion_all_or_nothing [OF r w u a, of read_integer]
       numeric_coercion_all_or_nothing [OF r w u b, of read_integer]
  have "\<exists>df'. process_data read_integer text_table = Inr (df', [])
         \<and> filter (\<lambda>x. col_name x = ''a'') (df_columns df') = [?a]
         \<and> filter (\<lambda>x. col_name x = ''b'') (df_columns df') =
             [\<lparr>col_name = ''b'', col_dtype = Numeric,
               col_cells = [Num (Finite 1), Num (Finite 2), Num (Finite 3)]\<rparr>]"
    by (auto simp: reading_defs read_integer_examples)
  with r w u show ?thesis by blast
qed

subsection \<open>Idempotence\<close>

lemma read_as_finite:
  assumes "finite_cell p x" "parses p x"
  shows "\<not> isinf (Num (read_as p ints x))" and "isna (Num (read_as p ints x)) \<longleftrightarrow> isna x"
proof -
  have "\<not> isinf (Num (read_as p ints x)) \<and> (isna (Num (read_as p ints x)) \<longleftrightarrow> isna x)"
  proof (cases x)
    case (Num v)
    with assms show ?thesis by (cases v) simp_all
  next
    case (Str s)
    with assms(2) obtain fval as_int where r: "read_text p s = Some (fval, as_int)"
      by (auto split: option.splits)
    with assms(1) Str have fin: "fval \<noteq> PosInf" "fval \<noteq> NegInf" "fval \<noteq> NaN"
      by simp_all
    then have "\<not> isinf (Num fval)" "\<not> isna (Num fval)"
      by (cases fval; simp)+
    with Str r show ?thesis
      by (simp add: read_as_def split: option.splits)
  qed
  then show "\<not> isinf (Num (read_as p ints x))"
    and "isna (Num (read_as p ints x)) \<longleftrightarrow> isna x" by simp_all
qed

lemma to_numeric_ignore_pattern:
  assumes "list_all (finite_cell p) (col_cells c)"
  shows "map isna (col_cells (to_numeric_ignore p c)) = map isna (col_cells c)"
    and "\<not> list_ex isinf (col_cells c) \<Longrightarrow> \<not> list_ex isinf (col_cells (to_numeric_ignore p c))"
proof -
  have fin: "finite_cell p x" if "x \<in> set (col_cells c)" for x
    using assms that by (simp add: list_all_iff)
  show "map isna (col_cells (to_numeric_ignore p c)) = map isna (col_cells c)"
  proof (cases "col_dtype c = Object \<and> converts p (col_cells c)")
    case False
    then have "to_numeric_ignore p c = c" by (auto simp: to_numeric_ignore_eq)
    then show ?thesis by simp
  next
    case True
    then have "parses p x" if "x \<in> set (col_cells c)" for x
      using that by (simp add: converts_def list_all_iff)
    then have "isna (Num (read_as p ints x)) = isna x" if "x \<in> set (col_cells c)" for x ints
      using that fin by (simp add: read_as_finite)
    with True show ?thesis by (simp add: to_numeric_ignore_eq numeric_column_def)
  qed
  show "\<not> list_ex isinf (col_cells (to_numeric_ignore p c))"
    if "\<not> list_ex isinf (col_cells c)"
  proof (cases "col_dtype c = Object \<and> converts p (col_cells c)")
    case False
    then have "to_numeric_ignore p c = c" by (auto simp: to_numeric_ignore_eq)
    with that show ?thesis by simp
  next
    case True
    then have "parses p x" if "x \<in> set (col_cells c)" for x
      using that by (simp add: converts_def list_all_iff)
    then have "\<not> isinf (Num (read_as p ints x))" if "x \<in> set (col_cells c)" for x ints
      using that fin by (simp add: read_as_finite)
    with True show ?thesis by (simp add: to_numeric_ignore_eq numeric_column_def list_ex_iff)
  qed
qed

lemma convert1_pattern:
  assumes "list_all (finite_cell p) (col_cells c)"
  shows "map isna (col_cells (convert1 p ns c)) = map isna (col_cells c)"
    and "\<not> list_ex isinf (col_cells c) \<Longrightarrow> \<not> list_ex isinf (col_cells (convert1 p ns c))"
  using to_numeric_ignore_pattern [OF assms] by (simp_all add: convert1_def)

lemma finite_cell_not_isinf: "finite_cell p x \<Longrightarrow> \<not> isinf x"
  by (cases x rule: isinf.cases) simp_all

lemma finite_cells_no_inf:
  "list_all (finite_cell p) xs \<Longrightarrow> \<not> list_ex isinf xs"
  by (auto simp: list_all_iff list_ex_iff dest: finite_cell_not_isinf)

lemma col_all_na_pattern:
  "map isna (col_cells c') = map isna (col_cells c) \<Longrightarrow> col_all_na c' = col_all_na c"
proof -
  assume "map isna (col_cells c') = map isna (col_cells c)"
  then have "list_all id (map isna (col_cells c')) = list_all id (map isna (col_cells c))"
    by simp
  then show ?thesis by (simp add: col_all_na_def list_all_iff)
qed

lemma isna_nth_pattern:
  assumes "map isna xs = map isna ys" "j < length ys"
  shows "isna (xs ! j) = isna (ys ! j)"
proof -
  from assms have len: "length xs = length ys" by (metis length_map)
  have "isna (xs ! j) = map isna xs ! j" using len assms(2) by simp
  also have "\<dots> = map isna ys ! j" by (simp only: assms(1))
  also have "\<dots> = isna (ys ! j)" using assms(2) by simp
  finally show ?thesis .
qed


lemma table_columns_same [simp]: "\<lparr>df_index = df_index df, df_columns = df_columns df\<rparr> = df"
  by simp

lemma process_data_fixed:
  assumes rect: "rectangular r"
    and rows: "\<forall>i < nrows r. \<not> row_all_na r i"
    and cols: "\<forall>c \<in> set (df_columns r). \<not> col_all_na c"
    and noinf: "\<forall>c \<in> set (df_columns r). \<not> list_ex isinf (col_cells c)"
    and conv: "convert_all p r = r"
  shows "process_data p r = Inr (r, [])"
proof -
  have kept: "kept_rows r = [0..<nrows r]"
    using rows by (simp add: kept_rows_def)
  have keep: "filter (\<lambda>c. \<not> col_all_na c) (df_columns r) = df_columns r"
    using cols by simp
  have "map (select_rows [0..<nrows r]) (df_columns r) = df_columns r"
    by (rule map_idI) (simp add: select_rows_all rectangularD [OF rect])
  then have d: "dropna_cols (dropna_rows r) = r"
    by (simp add: dropna_eq [OF rect] kept keep nrows_def map_nth)
  have "map replace_inf_col (df_columns r) = df_columns r"
    using noinf by (intro map_idI) (simp add: replace_inf_col_def)
  then have "replace_inf r = r" by (simp add: replace_inf_def)
  with d conv show ?thesis by (simp add: process_data_stages)
qed

lemma dropna_props:
  assumes rect: "rectangular df"
  shows "rectangular (dropna_cols (dropna_rows df))"
    and "\<forall>j < nrows (dropna_cols (dropna_rows df)). \<not> row_all_na (dropna_cols (dropna_rows df)) j"
    and "\<forall>c \<in> set (df_columns (dropna_cols (dropna_rows df))). \<not> col_all_na c"
    and "finite_table p df \<Longrightarrow> finite_table p (dropna_cols (dropna_rows df))"
proof -
  let ?kept = "kept_rows df"
  let ?keep = "filter (\<lambda>c. \<not> col_all_na c) (df_columns df)"
  let ?d = "dropna_cols (dropna_rows df)"
  have d: "?d = \<lparr>df_index = map (nth (df_index df)) ?kept,
      df_columns = map (select_rows ?kept) ?keep\<rparr>"
    by (rule dropna_eq [OF rect])
  show "rectangular ?d"
    by (simp add: d rectangular_def nrows_def list_all_iff)
  show "\<forall>c \<in> set (df_columns ?d). \<not> col_all_na c"
    by (auto simp: d col_all_na_select [OF rect])
  show "\<forall>j < nrows ?d. \<not> row_all_na ?d j"
  proof (intro allI impI)
    fix j assume "j < nrows ?d"
    then have j: "j < length ?kept" by (simp add: d nrows_def)
    then have "?kept ! j \<in> set ?kept" by simp
    then have i: "?kept ! j < nrows df" "\<not> row_all_na df (?kept ! j)"
      by (simp_all add: kept_rows_def)
    then obtain c where c: "c \<in> set (df_columns df)" "\<not> isna (col_cells c ! (?kept ! j))"
      by (auto simp: row_all_na_iff)
    with i rect have "col_cells c ! (?kept ! j) \<in> set (col_cells c)"
      by (simp add: rectangularD)
    with c have "\<not> col_all_na c" unfolding col_all_na_iff by blast
    with c have "select_rows ?kept c \<in> set (df_columns ?d)" by (simp add: d)
    moreover have "\<not> isna (col_cells (select_rows ?kept c) ! j)"
      using j c by (simp add: select_rows_def)
    ultimately show "\<not> row_all_na ?d j" unfolding row_all_na_iff by blast
  qed
  show "finite_table p ?d" if fin: "finite_table p df"
  proof -
    have "list_all (finite_cell p) (col_cells (select_rows ?kept c))"
      if c: "c \<in> set (df_columns df)" for c
    proof -
      from fin c have all: "\<forall>x \<in> set (col_cells c). finite_cell p x"
        by (simp add: finite_table_def list_all_iff)
      have "\<forall>i \<in> set ?kept. i < length (col_cells c)"
        using c rect by (simp add: rectangularD kept_rows_def)
      with all show ?thesis by (simp add: select_rows_def list_all_iff)
    qed
    then show ?thesis by (auto simp: d finite_table_def list_all_iff)
  qed
qed


lemma convert_all_props:
  assumes rect: "rectangular t"
    and rows: "\<forall>j < nrows t. \<not> row_all_na t j"
    and cols: "\<forall>c \<in> set (df_columns t). \<not> col_all_na c"
    and fin: "finite_table p t"
  shows "rectangular (convert_all p t)"
    and "\<forall>j < nrows (convert_all p t). \<not> row_all_na (convert_all p t) j"
    and "\<forall>c \<in> set (df_columns (convert_all p t)). \<not> col_all_na c"
    and "\<forall>c \<in> set (df_columns (convert_all p t)). \<not> list_ex isinf (col_cells c)"
    and "convert_all p (convert_all p t) = convert_all p t"
proof -
  let ?N = "col_names t"
  let ?r = "convert_all p t"
  have r: "df_columns ?r = map (convert1 p ?N) (df_columns t)"
    by (simp add: convert_all_def)
  have n: "nrows ?r = nrows t" by (simp add: nrows_def)
  have finc: "list_all (finite_cell p) (col_cells c)" if "c \<in> set (df_columns t)" for c
    using fin that by (simp add: finite_table_def list_all_iff)
  show "rectangular ?r"
    using rect by (simp add: rectangular_def list_all_iff r n)
  show "\<forall>c \<in> set (df_columns ?r). \<not> col_all_na c"
    using cols by (auto simp: r col_all_na_pattern [OF convert1_pattern(1) [OF finc]])
  have "\<not> list_ex isinf (col_cells (convert1 p ?N c))" if "c \<in> set (df_columns t)" for c
    using convert1_pattern(2) [OF finc [OF that] finite_cells_no_inf [OF finc [OF that]]] .
  then show "\<forall>c \<in> set (df_columns ?r). \<not> list_ex isinf (col_cells c)"
    by (auto simp: r)
  show "\<forall>j < nrows ?r. \<not> row_all_na ?r j"
  proof (intro allI impI)
    fix j assume "j < nrows ?r"
    then have j: "j < nrows t" by (simp add: n)
    with rows obtain c where c: "c \<in> set (df_columns t)" "\<not> isna (col_cells c ! j)"
      by (auto simp: row_all_na_iff)
    with j rect have "j < length (col_cells c)" by (simp add: rectangularD)
    with convert1_pattern(1) [OF finc [OF c(1)], of ?N]
    have "isna (col_cells (convert1 p ?N c) ! j) = isna (col_cells c ! j)"
      by (rule isna_nth_pattern)
    with c have "convert1 p ?N c \<in> set (df_columns ?r)"
      "\<not> isna (col_cells (convert1 p ?N c) ! j)"
      by (simp_all add: r)
    then show "\<not> row_all_na ?r j" unfolding row_all_na_iff by blast
  qed
  show "convert_all p ?r = ?r"
    by (simp add: convert_all_def col_names_def comp_def)
qed


text \<open>
  Claim C4, as stated, fails. A row of infinities survives the first call as a row of
  missing cells (claim C10) and is dropped by the second call.
\<close>

theorem process_data_idempotent_counterexample:
  "process_data read_integer inf_table = Inr (inf_table_once, [])
   \<and> process_data read_integer inf_table_once = Inr (inf_table_twice, [])
   \<and> inf_table_once \<noteq> inf_table_twice"
  by (simp add: process_data_stages eval_defs upt_1 inf_table_def inf_table_once_def
        inf_table_twice_def convert_all_def convert1_def to_numeric_ignore_eq reading_defs)

text \<open>
  Claim C4, amended. \<open>process_data\<close> is idempotent on the (rectangular) tables that
  hold no infinity and no text that is read as an infinity or as the missing marker:
  on such a table, processing the result again returns it unchanged, with no message.
\<close>

theorem process_data_idempotent:
  assumes "rectangular df" and "finite_table p df"
  shows "\<exists>df'. process_data p df = Inr (df', []) \<and> process_data p df' = Inr (df', [])"
proof -
  let ?d = "dropna_cols (dropna_rows df)"
  note d = dropna_props [OF assms(1)]
  have fin: "finite_table p ?d" using assms(2) by (rule d(4))
  have "replace_inf_col c = c" if "c \<in> set (df_columns ?d)" for c
  proof -
    from fin that have "list_all (finite_cell p) (col_cells c)"
      by (simp add: finite_table_def list_all_iff)
    then have "\<not> list_ex isinf (col_cells c)" by (rule finite_cells_no_inf)
    then show ?thesis by (simp add: replace_inf_col_def)
  qed
  then have "map replace_inf_col (df_columns ?d) = df_columns ?d"
    by (intro map_idI)
  then have "replace_inf ?d = ?d" by (simp add: replace_inf_def)
  then have first: "process_data p df = Inr (convert_all p ?d, [])"
    by (simp add: process_data_stages)
  note r = convert_all_props [OF d(1) d(2) d(3) fin]
  have "process_data p (convert_all p ?d) = Inr (convert_all p ?d, [])"
    by (rule process_data_fixed [OF r])
  with first show ?thesis by blast
qed

theorem process_data_idempotent_witness:
  "rectangular gaps_table \<and> finite_table read_integer gaps_table
   \<and> process_data read_integer gaps_table =
       Inr (\<lparr>df_index = [0, 2],
             df_columns =
               [\<lparr>col_name = ''a'', col_dtype = Object, col_cells = [Str ''x'', Str ''y'']\<rparr>,
                \<lparr>col_name = ''c'', col_dtype = Numeric,
                 col_cells = [Num (Finite 1), Num (Finite 2)]\<rparr>]\<rparr>, [])
   \<and> process_data read_integer
       \<lparr>df_index = [0, 2],
        df_columns =
          [\<lparr>col_name = ''a'', col_dtype = Object, col_cells = [Str ''x'', Str ''y'']\<rparr>,
           \<lparr>col_name = ''c'', col_dtype = Numeric,
            col_cells = [Num (Finite 1), Num (Finite 2)]\<rparr>]\<rparr> =
       Inr (\<lparr>df_index = [0, 2],
             df_columns =
               [\<lparr>col_name = ''a'', col_dtype = Object, col_cells = [Str ''x'', Str ''y'']\<rparr>,
                \<lparr>col_name = ''c'', col_dtype = Numeric,
                 col_cells = [Num (Finite 1), Num (Finite 2)]\<rparr>]\<rparr>, [])"
proof -
  have r: "rectangular gaps_table"
    by (simp add: rectangular_def gaps_table_def nrows_def)
  have f: "finite_table read_integer gaps_table"
    by (simp add: finite_table_def gaps_table_def read_text_def read_integer_examples)
  have first: "process_data read_integer gaps_table =
       Inr (\<lparr>df_index = [0, 2],
             df_columns =
               [\<lparr>col_name = ''a'', col_dtype = Object, col_cells = [Str ''x'', Str ''y'']\<rparr>,
                \<lparr>col_name = ''c'', col_dtype = Numeric,
                 col_cells = [Num (Finite 1), Num (Finite 2)]\<rparr>]\<rparr>, [])"
    by (simp add: process_data_stages eval_defs upt_1 gaps_table_def convert_all_def convert1_def
        to_numeric_ignore_eq reading_defs read_integer_examples)
  from process_data_idempotent [OF r f] first r f show ?thesis by auto
qed

subsection \<open>The variant in \<open>utils.py\<close>\<close>

lemma to_numeric_ignore_idem [simp]:
  "to_numeric_ignore p (to_numeric_ignore p c) = to_numeric_ignore p c"
proof (cases "to_numeric_ignore p c = c")
  case True
  then show ?thesis by simp
next
  case False
  with to_numeric_ignore_dtype [of p c]
  have "col_dtype (to_numeric_ignore p c) = Numeric" by simp
  then show ?thesis
    by (simp add: to_numeric_ignore_eq [of p "to_numeric_ignore p c"])
qed

lemma utils_convert_step:
  "(case utils_convert_column (pandas_strict p) df col of Inl e \<Rightarrow> df | Inr df' \<Rightarrow> df') =
     df\<lparr>df_columns :=
          map (\<lambda>c. if col_name c = col \<and> count_list (col_names df) col = 1
                   then to_numeric_ignore p c else c) (df_columns df)\<rparr>"
proof -
  let ?sel = "filter (\<lambda>c. col_name c = col) (df_columns df)"
  let ?f = "\<lambda>c. if col_name c = col \<and> count_list (col_names df) col = 1
                then to_numeric_ignore p c else c"
  have cnt: "count_list (col_names df) col = length ?sel" by (rule count_list_names)
  consider (none) "?sel = []" | (one) c0 where "?sel = [c0]"
    | (many) c0 c1 cs where "?sel = c0 # c1 # cs"
    by (metis list.exhaust)
  then show ?thesis
  proof cases
    case none
    then have "count_list (col_names df) col \<noteq> 1" using cnt by simp
    then have "map ?f (df_columns df) = df_columns df"
      by (simp add: map_idI)
    moreover from none have "utils_convert_column (pandas_strict p) df col = Inl (KeyError col)"
      by (simp add: utils_convert_column_def getitem_def)
    ultimately show ?thesis by simp
  next
    case many
    then have "count_list (col_names df) col \<noteq> 1" using cnt by simp
    then have "map ?f (df_columns df) = df_columns df"
      by (simp add: map_idI)
    moreover from many have "\<exists>e. utils_convert_column (pandas_strict p) df col = Inl e"
      by (simp add: utils_convert_column_def getitem_def pandas_strict_def)
    ultimately show ?thesis by auto
  next
    case one
    then have one_count: "count_list (col_names df) col = 1" using cnt by simp
    have "c0 \<in> set ?sel" using one by simp
    then have c0: "c0 \<in> set (df_columns df)" "col_name c0 = col" by simp_all
    have only: "c = c0" if "c \<in> set (df_columns df)" "col_name c = col" for c
    proof -
      from that have "c \<in> set ?sel" by simp
      with one show ?thesis by simp
    qed
    have in_names: "col \<in> set (col_names df)"
      using c0 by (auto simp: col_names_def)
    have C: "map (\<lambda>c. if col_name c = col then to_numeric_ignore p c0 else c) (df_columns df)
        = map ?f (df_columns df)"
    proof (rule map_cong [OF refl])
      fix c assume c: "c \<in> set (df_columns df)"
      show "(if col_name c = col then to_numeric_ignore p c0 else c) = ?f c"
      proof (cases "col_name c = col")
        case False
        then show ?thesis by simp
      next
        case True
        with c have "c = c0" by (rule only)
        with True one_count show ?thesis by simp
      qed
    qed
    have upd: "(to_numeric_ignore p c0)\<lparr>col_name := col\<rparr> = to_numeric_ignore p c0"
      using c0(2) by (metis column.surjective column.update_convs(1) to_numeric_ignore_name)
    have B: "setitem df col (to_numeric_ignore p c0) =
        df\<lparr>df_columns :=
             map (\<lambda>c. if col_name c = col then to_numeric_ignore p c0 else c) (df_columns df)\<rparr>"
      using in_names by (simp add: setitem_def upd)
    show ?thesis
    proof (cases "to_numeric_raise p c0")
      case (Inl e)
      then have same: "to_numeric_ignore p c0 = c0" by (simp add: to_numeric_ignore_def)
      have "map (\<lambda>c. if col_name c = col then to_numeric_ignore p c0 else c) (df_columns df)
          = df_columns df"
      proof (rule map_idI)
        fix c assume c: "c \<in> set (df_columns df)"
        show "(if col_name c = col then to_numeric_ignore p c0 else c) = c"
        proof (cases "col_name c = col")
          case False
          then show ?thesis by simp
        next
          case True
          with c have "c = c0" by (rule only)
          with same show ?thesis by simp
        qed
      qed
      with C have "map ?f (df_columns df) = df_columns df" by simp
      moreover from one Inl have "utils_convert_column (pandas_strict p) df col = Inl e"
        by (simp add: utils_convert_column_def getitem_def pandas_strict_def pandas_def)
      ultimately show ?thesis by simp
    next
      case (Inr c')
      then have "to_numeric_ignore p c0 = c'" by (simp add: to_numeric_ignore_def)
      with one Inr have A: "utils_convert_column (pandas_strict p) df col
          = Inr (setitem df col (to_numeric_ignore p c0))"
        by (simp add: utils_convert_column_def getitem_def pandas_strict_def pandas_def)
      show ?thesis unfolding A B C by simp
    qed
  qed
qed


lemma utils_convert_loop_eq:
  "utils_convert_loop (pandas_strict p) ns df =
     df\<lparr>df_columns :=
          map (\<lambda>c. if col_name c \<in> set ns \<and> count_list (col_names df) (col_name c) = 1
                   then to_numeric_ignore p c else c) (df_columns df)\<rparr>"
proof (induction ns arbitrary: df)
  case Nil
  then show ?case by simp
next
  case (Cons col cols)
  let ?u = "\<lambda>c. count_list (col_names df) (col_name c) = 1"
  let ?g = "\<lambda>c. if col_name c = col \<and> count_list (col_names df) col = 1
                then to_numeric_ignore p c else c"
  let ?df1 = "df\<lparr>df_columns := map ?g (df_columns df)\<rparr>"
  have names: "col_names ?df1 = col_names df"
    by (rule col_names_map) simp
  have "utils_convert_loop (pandas_strict p) (col # cols) df
      = utils_convert_loop (pandas_strict p) cols ?df1"
    by (simp only: utils_convert_loop.simps utils_convert_step)
  also have "\<dots> = ?df1\<lparr>df_columns :=
      map (\<lambda>c. if col_name c \<in> set cols \<and> ?u c then to_numeric_ignore p c else c)
        (df_columns ?df1)\<rparr>"
    by (simp only: Cons.IH names)
  also have "\<dots> = df\<lparr>df_columns :=
      map (\<lambda>c. if col_name c \<in> set (col # cols) \<and> ?u c then to_numeric_ignore p c else c)
        (df_columns df)\<rparr>"
  proof -
    have "map (\<lambda>c. if col_name c \<in> set cols \<and> ?u c then to_numeric_ignore p c else c)
            (map ?g (df_columns df))
        = map (\<lambda>c. if col_name c \<in> set (col # cols) \<and> ?u c then to_numeric_ignore p c else c)
            (df_columns df)"
      unfolding map_map
    proof (rule map_cong [OF refl])
      fix c
      show "((\<lambda>c. if col_name c \<in> set cols \<and> ?u c then to_numeric_ignore p c else c) \<circ> ?g) c
          = (if col_name c \<in> set (col # cols) \<and> ?u c then to_numeric_ignore p c else c)"
        by (cases "col_name c = col"; cases "col_name c \<in> set cols"; cases "?u c") simp_all
    qed
    then show ?thesis by simp
  qed
  finally show ?case .
qed

lemma utils_process_data_stages:
  "utils_process_data p df = Inr (convert_all p (dropna_cols (dropna_rows df)))"
proof -
  let ?d = "dropna_cols (dropna_rows df)"
  have "map (\<lambda>c. if col_name c \<in> set (object_columns ?d)
                     \<and> count_list (col_names ?d) (col_name c) = 1
                  then to_numeric_ignore p c else c) (df_columns ?d)
      = map (convert1 p (col_names ?d)) (df_columns ?d)"
  proof (rule map_cong [OF refl])
    fix c assume c: "c \<in> set (df_columns ?d)"
    show "(if col_name c \<in> set (object_columns ?d) \<and> count_list (col_names ?d) (col_name c) = 1
           then to_numeric_ignore p c else c) = convert1 p (col_names ?d) c"
    proof (cases "count_list (col_names ?d) (col_name c) = 1")
      case False
      then show ?thesis by (simp add: convert1_def)
    next
      case True
      then have "length (filter (\<lambda>x. col_name x = col_name c) (df_columns ?d)) = 1"
        by (simp add: count_list_names)
      then obtain c0 where c0: "filter (\<lambda>x. col_name x = col_name c) (df_columns ?d) = [c0]"
        by (auto simp: length_Suc_conv)
      have only: "x = c" if "x \<in> set (df_columns ?d)" "col_name x = col_name c" for x
      proof -
        from that have "x \<in> set (filter (\<lambda>x. col_name x = col_name c) (df_columns ?d))" by simp
        moreover from c have "c \<in> set (filter (\<lambda>x. col_name x = col_name c) (df_columns ?d))"
          by simp
        ultimately show ?thesis unfolding c0 by simp
      qed
      have "col_name c \<in> set (object_columns ?d) \<longleftrightarrow> col_dtype c = Object"
      proof
        assume "col_dtype c = Object"
        with c show "col_name c \<in> set (object_columns ?d)"
          by (force simp: object_columns_def)
      next
        assume "col_name c \<in> set (object_columns ?d)"
        then obtain x where "x \<in> set (df_columns ?d)" "col_dtype x = Object"
          "col_name x = col_name c"
          by (auto simp: object_columns_def)
        with only show "col_dtype c = Object" by auto
      qed
      with True show ?thesis by (simp add: convert1_def)
    qed
  qed
  then have loop: "utils_convert_loop (pandas_strict p) (object_columns ?d) ?d = convert_all p ?d"
    by (simp only: utils_convert_loop_eq convert_all_def)
  have "pd_dropna_rows (pandas_strict p) df = Inr (dropna_rows df)"
    "pd_dropna_cols (pandas_strict p) (dropna_rows df) = Inr ?d"
    by (simp_all add: pandas_strict_def pandas_def)
  then have "utils_process_data p df
      = Inr (utils_convert_loop (pandas_strict p) (object_columns ?d) ?d)"
    by (simp add: utils_process_data_def utils_process_data_with_def)
  with loop show ?thesis by simp
qed

text \<open>
  On a table that holds no infinity the two variants of \<open>process_data\<close> return the
  same table.
\<close>

lemma utils_process_data_agrees:
  assumes "\<forall>c \<in> set (df_columns df). \<not> list_ex isinf (col_cells c)"
  shows "\<exists>df'. utils_process_data p df = Inr df' \<and> process_data p df = Inr (df', [])"
proof -
  let ?d = "dropna_cols (dropna_rows df)"
  have "replace_inf_col c = c" if "c \<in> set (df_columns ?d)" for c
  proof -
    from that obtain c0 where c0: "c0 \<in> set (df_columns df)"
      and c: "c = c0\<lparr>col_cells := take_rows (keep_mask df) (col_cells c0)\<rparr>"
      by (auto simp: dropna_cols_def dropna_rows_def)
    from c0 assms have "\<not> list_ex isinf (col_cells c0)" by simp
    with take_rows_subset [of "keep_mask df" "col_cells c0"]
    have "\<not> list_ex isinf (col_cells c)"
      unfolding c by (auto simp: list_ex_iff)
    then show ?thesis by (simp add: replace_inf_col_def)
  qed
  then have "map replace_inf_col (df_columns ?d) = df_columns ?d"
    by (intro map_idI)
  then have "replace_inf ?d = ?d" by (simp add: replace_inf_def)
  then show ?thesis
    by (simp add: utils_process_data_stages process_data_stages)
qed

text \<open>The variant has no handler around its body: a failure of \<open>dropna\<close> reaches the caller.\<close>

lemma utils_process_data_raises:
  "pd_dropna_rows lib df = Inl e \<Longrightarrow> utils_process_data_with lib df = Inl e"
  by (simp add: utils_process_data_with_def)

end
